theory Spec2Isabelle
  imports Main "HOL-Library.Sublist"
begin

section \<open>String helpers of the auth and purchase packages\<close>

text \<open>
  Go strings are byte sequences; they are modelled as \<open>string\<close> (a list of characters).
  A slice \<open>s[i:i+n]\<close> is \<open>take n (drop i s)\<close>; every slice taken below is guarded by the
  length tests of the source, so it is within bounds. Lengths and the loop counter are
  Go \<open>int\<close>s: the bound \<open>len(s)-len(substr)\<close> can be negative, and is kept as an \<open>int\<close>.
\<close>

function findSubstring_from :: "string \<Rightarrow> string \<Rightarrow> int \<Rightarrow> bool" where
  "findSubstring_from s substr i =
     (if i \<le> int (length s) - int (length substr)
      then (if take (length substr) (drop (nat i) s) = substr then True
            else findSubstring_from s substr (i + 1))
      else False)"
  by pat_completeness auto
termination
  by (relation "measure (\<lambda>(s, substr, i). nat (int (length s) - int (length substr) - i + 1))") auto

declare findSubstring_from.simps [simp del]

text \<open>auth.findSubstring: the scan \<open>for i := 0; i <= len(s)-len(substr); i++\<close>.\<close>

definition findSubstring :: "string \<Rightarrow> string \<Rightarrow> bool" where
  "findSubstring s substr = findSubstring_from s substr 0"

text \<open>auth.contains: prefix test, suffix test, then the scan.\<close>

definition contains :: "string \<Rightarrow> string \<Rightarrow> bool" where
  "contains s substr \<longleftrightarrow>
     (length s \<ge> length substr \<and> take (length substr) s = substr) \<or>
     (length s > length substr \<and> drop (length s - length substr) s = substr) \<or>
     (length s > length substr \<and> findSubstring s substr)"

text \<open>purchase.contains: the plain scan.\<close>

definition contains_purchase :: "string \<Rightarrow> string \<Rightarrow> bool" where
  "contains_purchase s substr = findSubstring_from s substr 0"

section \<open>Errors, durations, configuration\<close>

text \<open>
  A Go \<open>error\<close> value is an \<open>error option\<close>: \<open>None\<close> is \<open>nil\<close>. \<open>Errorf fmt args e\<close> is
  \<open>fmt.Errorf(fmt, args..., e)\<close>, kept unformatted; its last component is the operand of
  \<open>%w\<close> (\<open>None\<close> when the format has no \<open>%w\<close>, or when the operand is \<open>nil\<close>).
\<close>

datatype arg = AInt int | AStr string

datatype error =
    Canceled
  | DeadlineExceeded
  | Failure string
  | Errorf string "arg list" "error option"

text \<open>\<open>time.Duration\<close> is an int64 count of nanoseconds; products wrap around.\<close>

definition wrap64 :: "int \<Rightarrow> int" where
  "wrap64 x = (x + 2 ^ 63) mod 2 ^ 64 - 2 ^ 63"

definition Millisecond :: int where
  "Millisecond = 1000000"

definition Second :: int where
  "Second = 1000000000"

definition Minute :: int where
  "Minute = 60000000000"

record config =
  BaseURL :: string
  Username :: string
  Password :: string
  LivestreamURLs :: "string list"
  MaxRetries :: int
  RetryDelay :: int
  CheckInterval :: int

text \<open>config.GetRetryDelay and config.GetCheckInterval.\<close>

definition GetRetryDelay :: "config \<Rightarrow> int" where
  "GetRetryDelay c = wrap64 (wrap64 (RetryDelay c) * Second)"

definition GetCheckInterval :: "config \<Rightarrow> int" where
  "GetCheckInterval c = wrap64 (wrap64 (CheckInterval c) * Second)"

section \<open>The outside world: browser driver, clock, session file\<close>

record cookie =
  Name :: string
  Value :: string
  Domain :: string
  Path :: string
  HTTPOnly :: bool
  Secure :: bool

text \<open>
  The scripts handed to \<open>chromedp.Evaluate\<close> are disjunctions of
  \<open>!!document.querySelector(sel)\<close> and \<open>!!document.cookie.includes(p)\<close>.
\<close>

datatype js = QuerySelector string | CookieIncludes string | Or js js

text \<open>
  Every call that leaves the program (one \<open>chromedp.Run\<close>, one \<open>json.MarshalIndent\<close>,
  \<open>os.WriteFile\<close> or \<open>os.Remove\<close>) is answered by the outside world. The \<open>k\<close>-th call of a
  run gets the \<open>k\<close>-th reply: whether the call fails, how long it takes, and what the
  browser shows at that moment. A driver is the sequence of these replies, so that
  quantifying over drivers covers every behaviour of the browser, including a cancelled
  context (every call fails with \<open>Canceled\<close> at once).
\<close>

record reply =
  failure :: "error option"
  latency :: nat
  location :: string
  matches :: "string \<Rightarrow> bool"
  document_cookie :: string
  jar :: "cookie list"

type_synonym driver = "nat \<Rightarrow> reply"

fun js_eval :: "reply \<Rightarrow> js \<Rightarrow> bool" where
  "js_eval r (QuerySelector sel) = matches r sel"
| "js_eval r (CookieIncludes p) = sublist p (document_cookie r)"
| "js_eval r (Or a b) = (js_eval r a \<or> js_eval r b)"

datatype action =
    Navigate string
  | Location
  | Evaluate js
  | GetCookies
  | SetCookies "cookie option list"
  | ClearBrowserCookies
  | WaitVisible string
  | Click string
  | Type string string
  | MarshalIndent
  | WriteFile
  | Remove

datatype fn =
    FnLogin | FnManualLogin | FnPerformLogin | FnSaveSession | FnLoadSession
  | FnValidateSession | FnLogout | FnExecutePurchase

text \<open>
  The history of a run: every sleep, every call that left the program, and (as ghost
  events) every entry into a function of interest.
\<close>

datatype event = Slept int | Ran action | Entered fn

text \<open>
  The session file either does not exist, cannot be read, does not parse as a list of
  cookie pointers, or holds one. An entry of a list that parses is a cookie object or
  \<open>null\<close>, which \<open>json.Unmarshal\<close> reads without error as a nil \<open>*network.Cookie\<close>.
\<close>

datatype file_state = Missing | Unreadable | Malformed | Stored "cookie option list"

text \<open>
  A call either returns a value or panics: the nil-pointer dereference of LoadSession is
  recovered nowhere, so it ends every caller above it.
\<close>

datatype 'a result = Panic | Return 'a

definition returns :: "'a \<times> 'b \<Rightarrow> 'a result \<times> 'b" where
  "returns p = (Return (fst p), snd p)"

record world =
  now :: int
  calls :: nat
  trace :: "event list"
  session_file :: file_state

text \<open>\<open>time.Sleep\<close>: a non-positive duration returns at once.\<close>

definition time_Sleep :: "int \<Rightarrow> world \<Rightarrow> world" where
  "time_Sleep dur w = w\<lparr>now := now w + max 0 dur, trace := trace w @ [Slept dur]\<rparr>"

definition enter :: "fn \<Rightarrow> world \<Rightarrow> world" where
  "enter f w = w\<lparr>trace := trace w @ [Entered f]\<rparr>"

text \<open>
  One call to the outside world, under an optional timeout (\<open>context.WithTimeout\<close>): a call
  that would take longer than the timeout fails with \<open>DeadlineExceeded\<close> when the timeout
  expires.
\<close>

definition run :: "driver \<Rightarrow> int option \<Rightarrow> action \<Rightarrow> world \<Rightarrow> error option \<times> reply \<times> world" where
  "run d timeout a w =
     (let r = d (calls w);
          late = (case timeout of None \<Rightarrow> False | Some t \<Rightarrow> t < int (latency r));
          spent = (case timeout of None \<Rightarrow> int (latency r) | Some t \<Rightarrow> min t (int (latency r)))
      in (if late then Some DeadlineExceeded else failure r, r,
          w\<lparr>now := now w + max 0 spent, calls := Suc (calls w), trace := trace w @ [Ran a]\<rparr>))"

section \<open>Package browser\<close>

text \<open>browser.NavigateWithRetry: the loop \<open>for i := 0; i < maxRetries; i++\<close>.\<close>

function NavigateWithRetry_from ::
  "driver \<Rightarrow> string \<Rightarrow> int \<Rightarrow> int \<Rightarrow> error option \<Rightarrow> world \<Rightarrow> error option \<times> world" where
  "NavigateWithRetry_from d url maxRetries i err w =
     (if i < maxRetries then
        (case run d (Some (30 * Second)) (Navigate url) w of
           (err', r, w1) \<Rightarrow>
             if err' = None then (None, w1)
             else NavigateWithRetry_from d url maxRetries (i + 1) err'
                    (if i < maxRetries - 1 then time_Sleep (wrap64 (wrap64 (i + 1) * Second)) w1
                     else w1))
      else (Some (Errorf ''failed to navigate to %s after %d retries: %w''
                    [AStr url, AInt maxRetries] err), w))"
  by pat_completeness auto
termination
  by (relation "measure (\<lambda>(d, url, maxRetries, i, err, w). nat (maxRetries - i))") auto

declare NavigateWithRetry_from.simps [simp del]

definition NavigateWithRetry :: "driver \<Rightarrow> string \<Rightarrow> int \<Rightarrow> world \<Rightarrow> error option \<times> world" where
  "NavigateWithRetry d url maxRetries w = NavigateWithRetry_from d url maxRetries 0 None w"

text \<open>browser.WaitForElement, browser.Click, browser.Type: one \<open>chromedp.Run\<close> each.\<close>

definition WaitForElement :: "driver \<Rightarrow> string \<Rightarrow> int \<Rightarrow> world \<Rightarrow> error option \<times> world" where
  "WaitForElement d selector timeout w =
     (case run d (Some timeout) (WaitVisible selector) w of (err, r, w1) \<Rightarrow> (err, w1))"

definition browser_Click :: "driver \<Rightarrow> string \<Rightarrow> world \<Rightarrow> error option \<times> world" where
  "browser_Click d selector w =
     (case run d None (Click selector) w of (err, r, w1) \<Rightarrow> (err, w1))"

definition browser_Type :: "driver \<Rightarrow> string \<Rightarrow> string \<Rightarrow> world \<Rightarrow> error option \<times> world" where
  "browser_Type d selector text w =
     (case run d None (Type selector text) w of (err, r, w1) \<Rightarrow> (err, w1))"

section \<open>Package auth: the session manager\<close>

record manager =
  cookies :: "cookie list"
  isLoggedIn :: bool

definition NewManager :: manager where
  "NewManager = \<lparr>cookies = [], isLoggedIn = False\<rparr>"

definition login_path :: string where
  "login_path = ''/buyer/login''"

definition account_menu :: string where
  "account_menu = ''[data-testid=\"account-menu\"]''"

text \<open>The script of the manual-login poll: four element tests and the cookie prefix.\<close>

definition login_signals :: js where
  "login_signals =
     Or (QuerySelector account_menu)
       (Or (QuerySelector ''.navbar__username'')
         (Or (QuerySelector ''a[href*=\"/user/account\"]'')
           (Or (QuerySelector ''.shopee-avatar'')
             (CookieIncludes ''SPC_''))))"

definition SaveSession :: "driver \<Rightarrow> manager \<Rightarrow> world \<Rightarrow> error option \<times> manager \<times> world" where
  "SaveSession d m w =
     (case run d None GetCookies (enter FnSaveSession w) of
        (err, r, w1) \<Rightarrow>
          (case err of
             Some e \<Rightarrow> (Some (Errorf ''failed to get cookies: %w'' [] (Some e)), m, w1)
           | None \<Rightarrow>
               (case run d None MarshalIndent w1 of
                  (err2, r2, w2) \<Rightarrow>
                    (case err2 of
                       Some e \<Rightarrow> (Some (Errorf ''failed to marshal cookies: %w'' [] (Some e)),
                                 m\<lparr>cookies := jar r\<rparr>, w2)
                     | None \<Rightarrow>
                         (case run d None WriteFile w2 of
                            (err3, r3, w3) \<Rightarrow>
                              (case err3 of
                                 Some e \<Rightarrow>
                                   (Some (Errorf ''failed to write session file: %w'' [] (Some e)),
                                    m\<lparr>cookies := jar r\<rparr>, w3)
                               | None \<Rightarrow>
                                   (None, m\<lparr>cookies := jar r, isLoggedIn := True\<rparr>,
                                    w3\<lparr>session_file := Stored (map Some (jar r))\<rparr>)))))))"

text \<open>
  LoadSession hands the browser one action that sets the cookies of the file in order,
  reading the fields of each through its pointer. The action returns the first error of
  the browser; if the browser raises none, it reaches every entry of the list, and
  panics at a nil one.
\<close>

definition LoadSession :: "driver \<Rightarrow> manager \<Rightarrow> world \<Rightarrow> bool result \<times> manager \<times> world" where
  "LoadSession d m w =
     (case session_file w of
        Missing \<Rightarrow> (Return False, m, enter FnLoadSession w)
      | Unreadable \<Rightarrow> (Return False, m, enter FnLoadSession w)
      | Malformed \<Rightarrow> (Return False, m, enter FnLoadSession w)
      | Stored cs \<Rightarrow>
          (case run d None (SetCookies cs) (enter FnLoadSession w) of
             (err, r, w1) \<Rightarrow>
               if err \<noteq> None then (Return False, m, w1)
               else if None \<in> set cs then (Panic, m, w1)
               else (Return True, m\<lparr>cookies := map the cs\<rparr>, w1)))"

definition ValidateSession :: "config \<Rightarrow> driver \<Rightarrow> world \<Rightarrow> bool \<times> world" where
  "ValidateSession cfg d w =
     (case NavigateWithRetry d (BaseURL cfg) 3 (enter FnValidateSession w) of
        (Some e, w1) \<Rightarrow> (False, w1)
      | (None, w1) \<Rightarrow>
          (case run d None Location (time_Sleep (2 * Second) w1) of
             (err, r, w2) \<Rightarrow>
               if err \<noteq> None then (False, w2)
               else if contains (location r) login_path then (False, w2)
               else (case run d None (Evaluate (QuerySelector account_menu)) w2 of
                       (err2, r2, w3) \<Rightarrow>
                         (err2 = None \<and> js_eval r2 (QuerySelector account_menu), w3))))"

definition maxWaitTime :: int where
  "maxWaitTime = 5 * Minute"

definition checkInterval :: int where
  "checkInterval = 2 * Second"

definition login_timeout :: error where
  "login_timeout = Errorf ''login timeout - please try again'' [] None"

text \<open>The polling loop of auth.ManualLogin (\<open>for { ... }\<close>), from \<open>startTime\<close> on.\<close>

function ManualLogin_loop ::
  "driver \<Rightarrow> int \<Rightarrow> manager \<Rightarrow> world \<Rightarrow> error option \<times> manager \<times> world" where
  "ManualLogin_loop d startTime m w =
     (if now w - startTime > maxWaitTime then (Some login_timeout, m, w)
      else
        (case run d None Location (time_Sleep checkInterval w) of
           (err, r, w2) \<Rightarrow>
             if err \<noteq> None then ManualLogin_loop d startTime m w2
             else if \<not> contains (location r) login_path then
               (case run d None (Evaluate login_signals) w2 of
                  (err2, r2, w3) \<Rightarrow>
                    if err2 = None \<and> js_eval r2 login_signals
                    then SaveSession d (m\<lparr>isLoggedIn := True\<rparr>) w3
                    else ManualLogin_loop d startTime m w3)
             else ManualLogin_loop d startTime m w2))"
  by pat_completeness auto
termination
  by (relation "measure (\<lambda>(d, startTime, m, w). nat (maxWaitTime + 1 - (now w - startTime)))")
     (auto simp: run_def time_Sleep_def checkInterval_def Second_def Let_def)

declare ManualLogin_loop.simps [simp del]

definition ManualLogin :: "config \<Rightarrow> driver \<Rightarrow> manager \<Rightarrow> world \<Rightarrow> error option \<times> manager \<times> world" where
  "ManualLogin cfg d m w =
     (case NavigateWithRetry d (BaseURL cfg @ login_path) 3 (enter FnManualLogin w) of
        (Some e, w1) \<Rightarrow>
          (Some (Errorf ''failed to navigate to login page: %w'' [] (Some e)), m, w1)
      | (None, w1) \<Rightarrow> ManualLogin_loop d (now w1) m w1)"

definition PerformLogin :: "config \<Rightarrow> driver \<Rightarrow> manager \<Rightarrow> world \<Rightarrow> error option \<times> manager \<times> world" where
  "PerformLogin cfg d m w =
     (case NavigateWithRetry d (BaseURL cfg @ login_path) 3 (enter FnPerformLogin w) of
        (Some e, w1) \<Rightarrow>
          (Some (Errorf ''failed to navigate to login page: %w'' [] (Some e)), m, w1)
      | (None, w1) \<Rightarrow>
          (case run d None Location (time_Sleep (2 * Second) w1) of
             (err, r, w2) \<Rightarrow>
               if err \<noteq> None then (err, m, w2)
               else if location r \<noteq> BaseURL cfg @ login_path \<and> \<not> contains (location r) login_path
               then SaveSession d m w2
               else
                 (case WaitForElement d ''input[type='text']'' (10 * Second) w2 of
                    (Some e, w3) \<Rightarrow> (Some (Errorf ''login form not found: %w'' [] (Some e)), m, w3)
                  | (None, w3) \<Rightarrow>
                      if Username cfg \<noteq> [] \<and> Password cfg \<noteq> [] then
                        (case browser_Type d ''input[type='text']'' (Username cfg) w3 of
                           (Some e, w4) \<Rightarrow>
                             (Some (Errorf ''failed to enter username: %w'' [] (Some e)), m, w4)
                         | (None, w4) \<Rightarrow>
                             (case browser_Type d ''input[type='password']'' (Password cfg)
                                     (time_Sleep (500 * Millisecond) w4) of
                                (Some e, w5) \<Rightarrow>
                                  (Some (Errorf ''failed to enter password: %w'' [] (Some e)), m, w5)
                              | (None, w5) \<Rightarrow>
                                  (case browser_Click d ''button[type='submit']''
                                          (time_Sleep (500 * Millisecond) w5) of
                                     (Some e, w6) \<Rightarrow>
                                       (Some (Errorf ''failed to click login button: %w'' []
                                                (Some e)), m, w6)
                                   | (None, w6) \<Rightarrow>
                                       (case run d None Location (time_Sleep (5 * Second) w6) of
                                          (err2, r2, w7) \<Rightarrow>
                                            if err2 \<noteq> None then (err2, m, w7)
                                            else if contains (location r2) login_path
                                            then (Some (Errorf
                                                    ''login failed - still on login page'' [] None),
                                                  m, w7)
                                            else SaveSession d m w7))))
                      else (Some (Errorf ''no valid login credentials provided'' [] None), m, w3))))"

definition Login :: "config \<Rightarrow> driver \<Rightarrow> manager \<Rightarrow> world \<Rightarrow> error option result \<times> manager \<times> world" where
  "Login cfg d m w =
     (case LoadSession d m (enter FnLogin w) of
        (Panic, m1, w1) \<Rightarrow> (Panic, m1, w1)
      | (Return loaded, m1, w1) \<Rightarrow>
          (case (if loaded then ValidateSession cfg d w1 else (False, w1)) of
             (valid, w2) \<Rightarrow>
               if loaded \<and> valid then (Return None, m1\<lparr>isLoggedIn := True\<rparr>, w2)
               else if Username cfg = [] \<or> Password cfg = [] then returns (ManualLogin cfg d m1 w2)
               else returns (PerformLogin cfg d m1 w2)))"

definition Logout :: "driver \<Rightarrow> manager \<Rightarrow> world \<Rightarrow> error option \<times> manager \<times> world" where
  "Logout d m w =
     (case run d None ClearBrowserCookies (enter FnLogout w) of
        (err, r, w1) \<Rightarrow>
          (case err of
             Some e \<Rightarrow> (Some e, m, w1)
           | None \<Rightarrow>
               (case run d None Remove w1 of
                  (err2, r2, w2) \<Rightarrow>
                    (None, m\<lparr>cookies := [], isLoggedIn := False\<rparr>,
                     (if err2 = None then w2\<lparr>session_file := Missing\<rparr> else w2)))))"

section \<open>Package purchase: the executor\<close>

definition AddToCart :: "driver \<Rightarrow> string \<Rightarrow> world \<Rightarrow> error option \<times> world" where
  "AddToCart d selector w =
     (case run d (Some (5 * Second)) (Click selector) w of
        (Some e, r, w1) \<Rightarrow> (Some (Errorf ''failed to click add to cart: %w'' [] (Some e)), w1)
      | (None, r, w1) \<Rightarrow> (None, time_Sleep (1 * Second) w1))"

definition ExecutePurchase :: "driver \<Rightarrow> string \<Rightarrow> world \<Rightarrow> error option \<times> world" where
  "ExecutePurchase d productSelector w =
     (case AddToCart d productSelector (enter FnExecutePurchase w) of
        (Some e, w1) \<Rightarrow> (Some (Errorf ''failed to add to cart: %w'' [] (Some e)), w1)
      | (None, w1) \<Rightarrow> (None, w1))"

text \<open>purchase.RetryPurchase: the loop \<open>for i := 0; i < maxRetries; i++\<close>.\<close>

function RetryPurchase_from ::
  "driver \<Rightarrow> string \<Rightarrow> int \<Rightarrow> int \<Rightarrow> int \<Rightarrow> error option \<Rightarrow> world \<Rightarrow> error option \<times> world" where
  "RetryPurchase_from d productSelector maxRetries retryDelay i lastErr w =
     (if i < maxRetries then
        (case ExecutePurchase d productSelector
                (if i > 0 then time_Sleep (wrap64 (retryDelay * i)) w else w) of
           (None, w1) \<Rightarrow> (None, w1)
         | (Some e, w1) \<Rightarrow>
             RetryPurchase_from d productSelector maxRetries retryDelay (i + 1) (Some e) w1)
      else (Some (Errorf ''all %d attempts to add to cart failed: %w'' [AInt maxRetries] lastErr),
            w))"
  by pat_completeness auto
termination
  by (relation "measure (\<lambda>(d, sel, maxRetries, retryDelay, i, lastErr, w). nat (maxRetries - i))")
     auto

declare RetryPurchase_from.simps [simp del]

definition RetryPurchase :: "config \<Rightarrow> driver \<Rightarrow> string \<Rightarrow> world \<Rightarrow> error option \<times> world" where
  "RetryPurchase cfg d productSelector w =
     RetryPurchase_from d productSelector (MaxRetries cfg) (GetRetryDelay cfg) 0 None w"

section \<open>Package livestream: the stream monitor\<close>

definition selectors :: "string list" where
  "selectors =
     [''button[class*='add-to-cart']'',
      ''button[class*='buy-now']'',
      ''button[class*='add-cart']'',
      ''div[class*='shop-bag'] button'',
      ''.shopee-button-solid'']"

text \<open>
  livestream.checkProductAvailability: the loop over the candidate selectors. Whether the
  evaluation of a candidate's script fails is the driver's answer.
\<close>

fun checkProductAvailability_from ::
  "driver \<Rightarrow> int \<Rightarrow> string list \<Rightarrow> world \<Rightarrow> error option \<times> world" where
  "checkProductAvailability_from d streamID [] w = (None, w)"
| "checkProductAvailability_from d streamID (selector # rest) w =
     (case run d None (Evaluate (QuerySelector selector)) w of
        (err, r, w1) \<Rightarrow>
          if err = None \<and> js_eval r (QuerySelector selector) then
            (case ExecutePurchase d selector w1 of
               (Some e, w2) \<Rightarrow> (Some e, w2)
             | (None, w2) \<Rightarrow> (None, w2))
          else checkProductAvailability_from d streamID rest w1)"

definition checkProductAvailability :: "driver \<Rightarrow> int \<Rightarrow> world \<Rightarrow> error option \<times> world" where
  "checkProductAvailability d streamID w = checkProductAvailability_from d streamID selectors w"

text \<open>
  What a task's \<open>select\<close> receives, one entry per iteration of the loop: a tick of the
  ticker, or the closing of the context's \<open>Done\<close> channel (then \<open>ctx.Err()\<close> is
  \<open>Canceled\<close> or \<open>DeadlineExceeded\<close>, never \<open>nil\<close>). A task whose list is used up is
  still blocked in its \<open>select\<close>.
\<close>

datatype ctx_reason = ByCancel | ByDeadline

datatype wake = TickerC | CtxDone ctx_reason

fun ctx_Err :: "ctx_reason \<Rightarrow> error" where
  "ctx_Err ByCancel = Canceled"
| "ctx_Err ByDeadline = DeadlineExceeded"

datatype outcome = Running | Panicked | Returned "error option"

fun monitor_loop :: "driver \<Rightarrow> int \<Rightarrow> wake list \<Rightarrow> world \<Rightarrow> outcome \<times> world" where
  "monitor_loop d streamID [] w = (Running, w)"
| "monitor_loop d streamID (CtxDone c # wakes) w = (Returned (Some (ctx_Err c)), w)"
| "monitor_loop d streamID (TickerC # wakes) w =
     monitor_loop d streamID wakes (snd (checkProductAvailability d streamID w))"

text \<open>
  livestream.monitorStream. \<open>time.NewTicker\<close> panics on a non-positive interval.
\<close>

definition monitorStream ::
  "config \<Rightarrow> driver \<Rightarrow> string \<Rightarrow> int \<Rightarrow> wake list \<Rightarrow> world \<Rightarrow> outcome \<times> world" where
  "monitorStream cfg d streamURL streamID wakes w =
     (case NavigateWithRetry d streamURL 3 w of
        (Some e, w1) \<Rightarrow>
          (Returned (Some (Errorf ''failed to navigate to stream %d: %w'' [AInt streamID] (Some e))),
           w1)
      | (None, w1) \<Rightarrow>
          if GetCheckInterval cfg \<le> 0 then (Panicked, w1)
          else monitor_loop d streamID wakes w1)"

text \<open>
  \<open>errgroup.Group.Wait\<close> returns the first non-nil error that a task returned, first in
  time; the tasks are given with the time at which each one returned.
\<close>

fun first_error :: "(nat \<times> error option) list \<Rightarrow> (nat \<times> error) option" where
  "first_error [] = None"
| "first_error ((t, None) # rest) = first_error rest"
| "first_error ((t, Some e) # rest) =
     (case first_error rest of
        None \<Rightarrow> Some (t, e)
      | Some (t', e') \<Rightarrow> if t' < t then Some (t', e') else Some (t, e))"

fun returned :: "outcome \<Rightarrow> error option" where
  "returned (Returned r) = r"
| "returned Running = None"
| "returned Panicked = None"

text \<open>
  livestream.Monitor.Start: one task per configured stream, task \<open>i\<close> with stream id
  \<open>i + 1\<close>. The tasks run concurrently against one browser; what task \<open>i\<close> sees of it
  (its replies and what its \<open>select\<close> receives) is \<open>env i\<close>, and \<open>finished i\<close> is the time
  at which it returns, so that every interleaving is some choice of \<open>env\<close> and
  \<open>finished\<close>. Start returns once every task has returned; a panic in a task ends the
  process.
\<close>

definition task_outcomes ::
  "config \<Rightarrow> (nat \<Rightarrow> driver \<times> wake list) \<Rightarrow> world \<Rightarrow> outcome list" where
  "task_outcomes cfg env w =
     map (\<lambda>i. fst (monitorStream cfg (fst (env i)) (LivestreamURLs cfg ! i) (int i + 1)
                      (snd (env i)) w))
         [0..<length (LivestreamURLs cfg)]"

definition Start ::
  "config \<Rightarrow> (nat \<Rightarrow> driver \<times> wake list) \<Rightarrow> (nat \<Rightarrow> nat) \<Rightarrow> world \<Rightarrow> outcome" where
  "Start cfg env finished w =
     (let outs = task_outcomes cfg env w in
      if Panicked \<in> set outs then Panicked
      else if Running \<in> set outs then Running
      else (case first_error (map (\<lambda>i. (finished i, returned (outs ! i))) [0..<length outs]) of
              None \<Rightarrow> Returned None
            | Some (t, e) \<Rightarrow> Returned (Some (Errorf ''monitoring error: %w'' [] (Some e)))))"

section \<open>Notions used to state the properties\<close>

text \<open>How often a function has been entered in the history of a world.\<close>

definition entries :: "fn \<Rightarrow> world \<Rightarrow> nat" where
  "entries f w = count_list (trace w) (Entered f)"

text \<open>
  The world after the \<open>Location\<close> call of one poll of the manual-login loop (sleep, then
  the call), and after the \<open>Evaluate\<close> call that follows it when the page is off the
  login path.
\<close>

definition poll_world :: "driver \<Rightarrow> world \<Rightarrow> world" where
  "poll_world d w = snd (snd (run d None Location (time_Sleep checkInterval w)))"

definition check_world :: "driver \<Rightarrow> world \<Rightarrow> world" where
  "check_world d w = snd (snd (run d None (Evaluate login_signals) w))"

text \<open>
  A poll whose \<open>Location\<close> call is call \<open>k\<close> is idle when that call fails or reports a URL
  on the login path: the loop goes round again after this one call. The login-success
  signals are the five tests of the script. A poll starting at call \<open>k\<close> detects the login
  when \<open>Location\<close> reports a URL off the login path and the script, evaluated by the next
  call, yields a signal.
\<close>

definition idle :: "driver \<Rightarrow> nat \<Rightarrow> bool" where
  "idle d k \<longleftrightarrow> failure (d k) \<noteq> None \<or> contains (location (d k)) login_path"

definition login_success_signal :: "reply \<Rightarrow> bool" where
  "login_success_signal r \<longleftrightarrow>
     matches r account_menu \<or> matches r ''.navbar__username'' \<or>
     matches r ''a[href*=\"/user/account\"]'' \<or> matches r ''.shopee-avatar'' \<or>
     sublist ''SPC_'' (document_cookie r)"

definition detects :: "driver \<Rightarrow> nat \<Rightarrow> bool" where
  "detects d k \<longleftrightarrow>
     failure (d k) = None \<and> \<not> contains (location (d k)) login_path \<and>
     failure (d (Suc k)) = None \<and> login_success_signal (d (Suc k))"

text \<open>
  The two ways in which a cookie list is fresh. Just captured: the list in memory is the
  one the driver returned to the \<open>GetCookies\<close> call of a SaveSession that ended the
  operation (only the serialisation and the write to the session file came after it), and
  it is what the session file now stores. Just validated: it is the list that LoadSession
  read from the session file, and ValidateSession succeeded right after.
\<close>

definition just_captured :: "driver \<Rightarrow> world \<Rightarrow> manager \<Rightarrow> world \<Rightarrow> bool" where
  "just_captured d w m' w' \<longleftrightarrow>
     isLoggedIn m' \<and> calls w + 3 \<le> calls w' \<and>
     cookies m' = jar (d (calls w' - 3)) \<and>
     session_file w' = Stored (map Some (cookies m'))"

definition just_validated :: "config \<Rightarrow> driver \<Rightarrow> manager \<Rightarrow> world \<Rightarrow> manager \<Rightarrow> world \<Rightarrow> bool" where
  "just_validated cfg d m w m' w' \<longleftrightarrow>
     isLoggedIn m' \<and> session_file w = Stored (map Some (cookies m')) \<and>
     fst (LoadSession d m (enter FnLogin w)) = Return True \<and>
     ValidateSession cfg d (snd (snd (LoadSession d m (enter FnLogin w)))) = (True, w')"

text \<open>
  The candidate that wins a tick whose first \<open>Evaluate\<close> call is call \<open>k\<close>: the first
  selector, in the order of the list, whose script is evaluated without error and finds
  an element. \<open>detections\<close> counts the ticks that have a winner among \<open>n\<close> successive
  ticks.
\<close>

fun first_available :: "driver \<Rightarrow> string list \<Rightarrow> nat \<Rightarrow> string option" where
  "first_available d [] k = None"
| "first_available d (selector # rest) k =
     (if failure (d k) = None \<and> matches (d k) selector then Some selector
      else first_available d rest (Suc k))"

fun detections :: "driver \<Rightarrow> int \<Rightarrow> nat \<Rightarrow> world \<Rightarrow> nat" where
  "detections d streamID 0 w = 0"
| "detections d streamID (Suc n) w =
     (if first_available d selectors (calls w) = None then 0 else 1)
     + detections d streamID n (snd (checkProductAvailability d streamID w))"

section \<open>Concrete drivers, configurations and worlds\<close>

text \<open>
  A fresh process, a reply that reports nothing, and the configuration of the shop with one
  stream, no credentials, three retries and delays of one second.
\<close>

definition start_world :: world where
  "start_world = \<lparr>now = 0, calls = 0, trace = [], session_file = Missing\<rparr>"

definition blank :: reply where
  "blank = \<lparr>failure = None, latency = 0, location = [], matches = (\<lambda>sel. False),
             document_cookie = [], jar = []\<rparr>"

definition shop_config :: config where
  "shop_config = \<lparr>BaseURL = ''https://shopee.co.th'', Username = [], Password = [],
     LivestreamURLs = [''https://live.shopee.co.th/1''], MaxRetries = 3, RetryDelay = 1,
     CheckInterval = 1\<rparr>"

definition shop_login_url :: string where
  "shop_login_url = BaseURL shop_config @ login_path"

definition login_url :: string where
  "login_url = ''https://shopee.co.th/buyer/login''"

definition home_url :: string where
  "home_url = ''https://shopee.co.th/''"

definition session_cookie :: cookie where
  "session_cookie = \<lparr>Name = ''SPC_EC'', Value = ''token'', Domain = ''.shopee.co.th'',
     Path = ''/'', HTTPOnly = True, Secure = True\<rparr>"

text \<open>
  Drivers: one whose every call fails; a browser without cookies; a browser that shows the
  account menu; a user who stays on the login page for \<open>n\<close> polls and is logged in
  afterwards; a user who is logged in at the first poll while the cookies cannot be read;
  a user who never logs in; a context cancelled right after the navigation.
\<close>

definition stuck_driver :: driver where
  "stuck_driver k = blank\<lparr>failure := Some (Failure ''driver call failed'')\<rparr>"

definition empty_browser :: driver where
  "empty_browser k = blank"

definition returning_user :: driver where
  "returning_user k = blank\<lparr>location := home_url, matches := (\<lambda>sel. sel = account_menu),
                             jar := [session_cookie]\<rparr>"

definition login_after :: "nat \<Rightarrow> driver" where
  "login_after n k =
     (if k = 0 then blank
      else if k \<le> n then blank\<lparr>location := login_url\<rparr>
      else blank\<lparr>location := home_url, matches := (\<lambda>sel. sel = account_menu),
                  jar := [session_cookie]\<rparr>)"

definition cookies_unreadable :: driver where
  "cookies_unreadable k =
     (if k < 3 then blank\<lparr>location := home_url, matches := (\<lambda>sel. sel = account_menu)\<rparr>
      else blank\<lparr>failure := Some (Failure ''driver call failed'')\<rparr>)"

definition never_logged_in :: driver where
  "never_logged_in k = (if k = 0 then blank else blank\<lparr>location := login_url\<rparr>)"

definition cancelled_after_navigation :: driver where
  "cancelled_after_navigation k = (if k = 0 then blank else blank\<lparr>failure := Some Canceled\<rparr>)"

text \<open>
  Worlds: after the navigation of ManualLogin; with a saved session, after LoadSession and
  after ValidateSession; after LoadSession found no session file; with a session file that
  reads \<open>[null]\<close>, and after LoadSession went through it.
\<close>

definition after_navigation :: world where
  "after_navigation =
     \<lparr>now = 0, calls = 1, trace = [Entered FnManualLogin, Ran (Navigate shop_login_url)],
      session_file = Missing\<rparr>"

definition saved_world :: world where
  "saved_world = start_world\<lparr>session_file := Stored [Some session_cookie]\<rparr>"

definition session_loaded :: world where
  "session_loaded =
     \<lparr>now = 0, calls = 1,
      trace = [Entered FnLogin, Entered FnLoadSession, Ran (SetCookies [Some session_cookie])],
      session_file = Stored [Some session_cookie]\<rparr>"

definition session_validated :: world where
  "session_validated =
     \<lparr>now = 2000000000, calls = 4,
      trace = [Entered FnLogin, Entered FnLoadSession, Ran (SetCookies [Some session_cookie]),
               Entered FnValidateSession, Ran (Navigate (BaseURL shop_config)),
               Slept 2000000000, Ran Location, Ran (Evaluate (QuerySelector account_menu))],
      session_file = Stored [Some session_cookie]\<rparr>"

definition no_session :: world where
  "no_session =
     \<lparr>now = 0, calls = 0, trace = [Entered FnLogin, Entered FnLoadSession],
      session_file = Missing\<rparr>"

definition null_session :: world where
  "null_session = start_world\<lparr>session_file := Stored [None]\<rparr>"

definition null_session_loaded :: world where
  "null_session_loaded =
     \<lparr>now = 0, calls = 1,
      trace = [Entered FnLogin, Entered FnLoadSession, Ran (SetCookies [None])],
      session_file = Stored [None]\<rparr>"

text \<open>
  Streams: a page whose buy button (the fifth candidate) is found at calls 4 and 10, where
  the click of call 5 fails and the click of call 11 succeeds; a stream without products,
  cancelled after its first tick; a stream that cannot be reached.
\<close>

definition flash_sale :: driver where
  "flash_sale k =
     (if k = 4 \<or> k = 10 then blank\<lparr>matches := (\<lambda>sel. sel = ''.shopee-button-solid'')\<rparr>
      else if k = 11 then blank
      else blank\<lparr>failure := Some (Failure ''driver call failed'')\<rparr>)"

definition quiet_stream :: driver where
  "quiet_stream k = blank"

definition one_stream :: "nat \<Rightarrow> driver \<times> wake list" where
  "one_stream i = (quiet_stream, [TickerC, CtxDone ByCancel])"


section \<open>Substring search\<close>

lemma findSubstring_from_iff:
  "0 \<le> i \<Longrightarrow>
   findSubstring_from s substr i \<longleftrightarrow>
     (\<exists>j. i \<le> j \<and> j \<le> int (length s) - int (length substr) \<and>
          take (length substr) (drop (nat j) s) = substr)"
proof (induction s substr i rule: findSubstring_from.induct)
  case (1 s substr i)
  show ?case
  proof (cases "i \<le> int (length s) - int (length substr)")
    case False
    then show ?thesis
      by (subst findSubstring_from.simps) auto
  next
    case inb: True
    show ?thesis
    proof (cases "take (length substr) (drop (nat i) s) = substr")
      case True
      with inb show ?thesis
        by (subst findSubstring_from.simps) auto
    next
      case False
      have step: "findSubstring_from s substr i = findSubstring_from s substr (i + 1)"
        using inb False by (subst findSubstring_from.simps) simp
      have ih: "findSubstring_from s substr (i + 1) \<longleftrightarrow>
          (\<exists>j. i + 1 \<le> j \<and> j \<le> int (length s) - int (length substr) \<and>
               take (length substr) (drop (nat j) s) = substr)"
        using "1.IH" [OF inb False] "1.prems" by simp
      have "(\<exists>j. i + 1 \<le> j \<and> j \<le> int (length s) - int (length substr) \<and>
               take (length substr) (drop (nat j) s) = substr) \<longleftrightarrow>
            (\<exists>j. i \<le> j \<and> j \<le> int (length s) - int (length substr) \<and>
               take (length substr) (drop (nat j) s) = substr)"
      proof
        assume "\<exists>j. i + 1 \<le> j \<and> j \<le> int (length s) - int (length substr) \<and>
               take (length substr) (drop (nat j) s) = substr"
        then show "\<exists>j. i \<le> j \<and> j \<le> int (length s) - int (length substr) \<and>
               take (length substr) (drop (nat j) s) = substr"
          by (meson add_increasing2 zero_le_one order_trans le_add_same_cancel1)
      next
        assume "\<exists>j. i \<le> j \<and> j \<le> int (length s) - int (length substr) \<and>
               take (length substr) (drop (nat j) s) = substr"
        then obtain j where j: "i \<le> j" "j \<le> int (length s) - int (length substr)"
          "take (length substr) (drop (nat j) s) = substr" by blast
        with False have "j \<noteq> i" by auto
        with j have "i + 1 \<le> j" by simp
        with j show "\<exists>j. i + 1 \<le> j \<and> j \<le> int (length s) - int (length substr) \<and>
               take (length substr) (drop (nat j) s) = substr" by blast
      qed
      with step ih show ?thesis by simp
    qed
  qed
qed

lemma sublist_iff_window:
  "sublist substr s \<longleftrightarrow>
     (\<exists>j. 0 \<le> j \<and> j \<le> int (length s) - int (length substr) \<and>
          take (length substr) (drop (nat j) s) = substr)"
proof
  assume "sublist substr s"
  then obtain ps ss where s: "s = ps @ substr @ ss"
    by (auto simp: sublist_def)
  have "take (length substr) (drop (nat (int (length ps))) s) = substr"
    by (simp add: s)
  moreover have "int (length ps) \<le> int (length s) - int (length substr)"
    by (simp add: s)
  ultimately show "\<exists>j. 0 \<le> j \<and> j \<le> int (length s) - int (length substr) \<and>
          take (length substr) (drop (nat j) s) = substr"
    by (metis of_nat_0_le_iff)
next
  assume "\<exists>j. 0 \<le> j \<and> j \<le> int (length s) - int (length substr) \<and>
          take (length substr) (drop (nat j) s) = substr"
  then obtain j where j: "0 \<le> j" "j \<le> int (length s) - int (length substr)"
    "take (length substr) (drop (nat j) s) = substr" by blast
  have "s = take (nat j) s @ take (length substr) (drop (nat j) s)
            @ drop (length substr) (drop (nat j) s)"
    by (metis append_take_drop_id)
  with j(3) have "s = take (nat j) s @ substr @ drop (length substr) (drop (nat j) s)"
    by simp
  then show "sublist substr s"
    unfolding sublist_def by blast
qed

lemma contains_purchase_sublist: "contains_purchase s substr \<longleftrightarrow> sublist substr s"
  by (simp add: contains_purchase_def findSubstring_from_iff sublist_iff_window)

lemma findSubstring_sublist: "findSubstring s substr \<longleftrightarrow> sublist substr s"
  by (simp add: findSubstring_def findSubstring_from_iff sublist_iff_window)

lemma prefix_window_sublist:
  "length substr \<le> length s \<Longrightarrow> take (length substr) s = substr \<Longrightarrow> sublist substr s"
  by (metis append_take_drop_id sublist_append_rightI)

lemma suffix_window_sublist:
  "drop (length s - length substr) s = substr \<Longrightarrow> sublist substr s"
  by (metis append_take_drop_id sublist_append_leftI)

lemma sublist_same_length:
  "sublist substr s \<Longrightarrow> length s \<le> length substr \<Longrightarrow> take (length substr) s = substr"
proof -
  assume "sublist substr s" and le: "length s \<le> length substr"
  then obtain ps ss where s: "s = ps @ substr @ ss"
    by (auto simp: sublist_def)
  with le have "ps = []" and "ss = []" by simp_all
  with s show ?thesis by simp
qed

lemma contains_sublist: "contains s substr \<longleftrightarrow> sublist substr s"
proof
  assume "contains s substr"
  then show "sublist substr s"
    unfolding contains_def
    using prefix_window_sublist suffix_window_sublist findSubstring_sublist by blast
next
  assume sub: "sublist substr s"
  show "contains s substr"
  proof (cases "length substr < length s")
    case True
    with sub show ?thesis
      by (simp add: contains_def findSubstring_sublist)
  next
    case False
    then have "length s \<le> length substr" by simp
    with sub have "take (length substr) s = substr"
      by (rule sublist_same_length)
    moreover from sub have "length substr \<le> length s"
      by (auto simp: sublist_def)
    ultimately show ?thesis
      by (simp add: contains_def)
  qed
qed

text \<open>
  C10. For all strings, auth's \<open>contains\<close> is true exactly when \<open>substr\<close> occurs as a
  contiguous substring of \<open>s\<close> (the empty string occurs in every string), and it agrees
  with the plain scan of the purchase package on every input.
\<close>

theorem contains_refines_substring:
  "(contains s substr \<longleftrightarrow> sublist substr s) \<and>
   contains s [] \<and>
   contains s substr = contains_purchase s substr"
  by (simp add: contains_sublist contains_purchase_sublist)

section \<open>Retrying a purchase\<close>

lemma ExecutePurchase_failed_trace:
  "ExecutePurchase d sel w = (Some e, w1) \<Longrightarrow>
   trace w1 = trace w @ [Entered FnExecutePurchase, Ran (Click sel)]"
  by (auto simp: ExecutePurchase_def AddToCart_def run_def enter_def Let_def
           split: prod.splits option.splits if_splits)

lemma RetryPurchase_from_done:
  "\<not> i < maxRetries \<Longrightarrow>
   RetryPurchase_from d sel maxRetries rd i lastErr w =
     (Some (Errorf ''all %d attempts to add to cart failed: %w'' [AInt maxRetries] lastErr), w)"
  by (subst RetryPurchase_from.simps) simp

lemma RetryPurchase_from_ok:
  "i < maxRetries \<Longrightarrow>
   ExecutePurchase d sel (if i > 0 then time_Sleep (wrap64 (rd * i)) w else w) = (None, w1) \<Longrightarrow>
   RetryPurchase_from d sel maxRetries rd i lastErr w = (None, w1)"
  by (subst RetryPurchase_from.simps) simp

lemma RetryPurchase_from_failed:
  "i < maxRetries \<Longrightarrow>
   ExecutePurchase d sel (if i > 0 then time_Sleep (wrap64 (rd * i)) w else w) = (Some e, w1) \<Longrightarrow>
   RetryPurchase_from d sel maxRetries rd i lastErr w =
     RetryPurchase_from d sel maxRetries rd (i + 1) (Some e) w1"
  by (subst RetryPurchase_from.simps) simp

text \<open>
  C2. With \<open>maxRetries = 3\<close> and a selector for which ExecutePurchase always fails,
  RetryPurchase makes exactly three attempts, with no sleep before the first, a sleep of
  \<open>retryDelay * 1\<close> before the second and of \<open>retryDelay * 2\<close> before the third (linear
  backoff), and returns the error that reports three exhausted attempts and wraps the
  error of the last attempt. If the first, second or third attempt succeeds, it returns
  \<open>nil\<close> right after that attempt, in the world that attempt left.
\<close>

theorem RetryPurchase_three_attempts:
  assumes three: "MaxRetries cfg = 3"
  shows "((\<forall>w'. fst (ExecutePurchase d sel w') \<noteq> None) \<longrightarrow>
            (\<exists>e1 w1 e2 w2 e3 w3.
               ExecutePurchase d sel w = (Some e1, w1) \<and>
               ExecutePurchase d sel (time_Sleep (wrap64 (GetRetryDelay cfg * 1)) w1) = (Some e2, w2) \<and>
               ExecutePurchase d sel (time_Sleep (wrap64 (GetRetryDelay cfg * 2)) w2) = (Some e3, w3) \<and>
               RetryPurchase cfg d sel w =
                 (Some (Errorf ''all %d attempts to add to cart failed: %w'' [AInt 3] (Some e3)), w3) \<and>
               trace w3 = trace w @
                 [Entered FnExecutePurchase, Ran (Click sel),
                  Slept (wrap64 (GetRetryDelay cfg * 1)),
                  Entered FnExecutePurchase, Ran (Click sel),
                  Slept (wrap64 (GetRetryDelay cfg * 2)),
                  Entered FnExecutePurchase, Ran (Click sel)])) \<and>
         (\<forall>w1. ExecutePurchase d sel w = (None, w1) \<longrightarrow> RetryPurchase cfg d sel w = (None, w1)) \<and>
         (\<forall>e1 w1 w2.
            ExecutePurchase d sel w = (Some e1, w1) \<and>
            ExecutePurchase d sel (time_Sleep (wrap64 (GetRetryDelay cfg * 1)) w1) = (None, w2) \<longrightarrow>
            RetryPurchase cfg d sel w = (None, w2)) \<and>
         (\<forall>e1 w1 e2 w2 w3.
            ExecutePurchase d sel w = (Some e1, w1) \<and>
            ExecutePurchase d sel (time_Sleep (wrap64 (GetRetryDelay cfg * 1)) w1) = (Some e2, w2) \<and>
            ExecutePurchase d sel (time_Sleep (wrap64 (GetRetryDelay cfg * 2)) w2) = (None, w3) \<longrightarrow>
            RetryPurchase cfg d sel w = (None, w3))"
proof (intro conjI impI allI)
  assume fails: "\<forall>w'. fst (ExecutePurchase d sel w') \<noteq> None"
  define rd where "rd = GetRetryDelay cfg"
  obtain e1 w1 where a1: "ExecutePurchase d sel w = (Some e1, w1)"
    using fails by (metis option.exhaust prod.collapse)
  obtain e2 w2 where a2: "ExecutePurchase d sel (time_Sleep (wrap64 (rd * 1)) w1) = (Some e2, w2)"
    using fails by (metis option.exhaust prod.collapse)
  obtain e3 w3 where a3: "ExecutePurchase d sel (time_Sleep (wrap64 (rd * 2)) w2) = (Some e3, w3)"
    using fails by (metis option.exhaust prod.collapse)
  have s1: "RetryPurchase_from d sel 3 rd 0 None w = RetryPurchase_from d sel 3 rd 1 (Some e1) w1"
    using RetryPurchase_from_failed [of 0 3 d sel rd w e1 w1 None] a1 by simp
  have s2: "RetryPurchase_from d sel 3 rd 1 (Some e1) w1 = RetryPurchase_from d sel 3 rd 2 (Some e2) w2"
    using RetryPurchase_from_failed [of 1 3 d sel rd w1 e2 w2 "Some e1"] a2 by simp
  have s3: "RetryPurchase_from d sel 3 rd 2 (Some e2) w2 = RetryPurchase_from d sel 3 rd 3 (Some e3) w3"
    using RetryPurchase_from_failed [of 2 3 d sel rd w2 e3 w3 "Some e2"] a3 by simp
  have s4: "RetryPurchase_from d sel 3 rd 3 (Some e3) w3 =
      (Some (Errorf ''all %d attempts to add to cart failed: %w'' [AInt 3] (Some e3)), w3)"
    by (rule RetryPurchase_from_done) simp
  have r: "RetryPurchase cfg d sel w =
      (Some (Errorf ''all %d attempts to add to cart failed: %w'' [AInt 3] (Some e3)), w3)"
    unfolding RetryPurchase_def three rd_def [symmetric] using s1 s2 s3 s4 by simp
  have t: "trace w3 = trace w @
                 [Entered FnExecutePurchase, Ran (Click sel), Slept (wrap64 (rd * 1)),
                  Entered FnExecutePurchase, Ran (Click sel), Slept (wrap64 (rd * 2)),
                  Entered FnExecutePurchase, Ran (Click sel)]"
    using ExecutePurchase_failed_trace [OF a1] ExecutePurchase_failed_trace [OF a2]
      ExecutePurchase_failed_trace [OF a3]
    by (simp add: time_Sleep_def)
  show "\<exists>e1 w1 e2 w2 e3 w3.
               ExecutePurchase d sel w = (Some e1, w1) \<and>
               ExecutePurchase d sel (time_Sleep (wrap64 (GetRetryDelay cfg * 1)) w1) = (Some e2, w2) \<and>
               ExecutePurchase d sel (time_Sleep (wrap64 (GetRetryDelay cfg * 2)) w2) = (Some e3, w3) \<and>
               RetryPurchase cfg d sel w =
                 (Some (Errorf ''all %d attempts to add to cart failed: %w'' [AInt 3] (Some e3)), w3) \<and>
               trace w3 = trace w @
                 [Entered FnExecutePurchase, Ran (Click sel),
                  Slept (wrap64 (GetRetryDelay cfg * 1)),
                  Entered FnExecutePurchase, Ran (Click sel),
                  Slept (wrap64 (GetRetryDelay cfg * 2)),
                  Entered FnExecutePurchase, Ran (Click sel)]"
    using a1 a2 a3 r t unfolding rd_def by blast
next
  fix w1
  assume "ExecutePurchase d sel w = (None, w1)"
  then show "RetryPurchase cfg d sel w = (None, w1)"
    unfolding RetryPurchase_def three
    using RetryPurchase_from_ok [of 0 3 d sel "GetRetryDelay cfg" w w1 None] by simp
next
  fix e1 w1 w2
  assume a: "ExecutePurchase d sel w = (Some e1, w1) \<and>
            ExecutePurchase d sel (time_Sleep (wrap64 (GetRetryDelay cfg * 1)) w1) = (None, w2)"
  have "RetryPurchase_from d sel 3 (GetRetryDelay cfg) 0 None w =
        RetryPurchase_from d sel 3 (GetRetryDelay cfg) 1 (Some e1) w1"
    using RetryPurchase_from_failed [of 0 3 d sel "GetRetryDelay cfg" w e1 w1 None] a by simp
  moreover have "RetryPurchase_from d sel 3 (GetRetryDelay cfg) 1 (Some e1) w1 = (None, w2)"
    using RetryPurchase_from_ok [of 1 3 d sel "GetRetryDelay cfg" w1 w2 "Some e1"] a by simp
  ultimately show "RetryPurchase cfg d sel w = (None, w2)"
    unfolding RetryPurchase_def three by simp
next
  fix e1 w1 e2 w2 w3
  assume a: "ExecutePurchase d sel w = (Some e1, w1) \<and>
            ExecutePurchase d sel (time_Sleep (wrap64 (GetRetryDelay cfg * 1)) w1) = (Some e2, w2) \<and>
            ExecutePurchase d sel (time_Sleep (wrap64 (GetRetryDelay cfg * 2)) w2) = (None, w3)"
  have "RetryPurchase_from d sel 3 (GetRetryDelay cfg) 0 None w =
        RetryPurchase_from d sel 3 (GetRetryDelay cfg) 1 (Some e1) w1"
    using RetryPurchase_from_failed [of 0 3 d sel "GetRetryDelay cfg" w e1 w1 None] a by simp
  moreover have "RetryPurchase_from d sel 3 (GetRetryDelay cfg) 1 (Some e1) w1 =
        RetryPurchase_from d sel 3 (GetRetryDelay cfg) 2 (Some e2) w2"
    using RetryPurchase_from_failed [of 1 3 d sel "GetRetryDelay cfg" w1 e2 w2 "Some e1"] a by simp
  moreover have "RetryPurchase_from d sel 3 (GetRetryDelay cfg) 2 (Some e2) w2 = (None, w3)"
    using RetryPurchase_from_ok [of 2 3 d sel "GetRetryDelay cfg" w2 w3 "Some e2"] a by simp
  ultimately show "RetryPurchase cfg d sel w = (None, w3)"
    unfolding RetryPurchase_def three by simp
qed

text \<open>
  C2 at a driver whose every call fails, with a retry delay of one second: three
  clicks, sleeps of one and two seconds between them, three seconds on the clock.
\<close>

theorem RetryPurchase_three_attempts_witness:
  "MaxRetries shop_config = 3 \<and>
   (\<forall>w'. fst (ExecutePurchase stuck_driver ''.shopee-button-solid'' w') \<noteq> None) \<and>
   RetryPurchase shop_config stuck_driver ''.shopee-button-solid'' start_world =
     (Some (Errorf ''all %d attempts to add to cart failed: %w'' [AInt 3]
        (Some (Errorf ''failed to add to cart: %w'' []
           (Some (Errorf ''failed to click add to cart: %w'' []
              (Some (Failure ''driver call failed''))))))),
      \<lparr>now = 3000000000, calls = 3,
       trace = [Entered FnExecutePurchase, Ran (Click ''.shopee-button-solid''), Slept 1000000000,
                Entered FnExecutePurchase, Ran (Click ''.shopee-button-solid''), Slept 2000000000,
                Entered FnExecutePurchase, Ran (Click ''.shopee-button-solid'')],
       session_file = Missing\<rparr>)"
proof -
  have three: "MaxRetries shop_config = 3"
    by (simp add: shop_config_def)
  have ex: "ExecutePurchase stuck_driver ''.shopee-button-solid'' w' =
      (Some (Errorf ''failed to add to cart: %w'' []
           (Some (Errorf ''failed to click add to cart: %w'' []
              (Some (Failure ''driver call failed''))))),
       w'\<lparr>now := now w', calls := Suc (calls w'),
          trace := trace w' @ [Entered FnExecutePurchase, Ran (Click ''.shopee-button-solid'')]\<rparr>)" for w'
    by (simp add: ExecutePurchase_def AddToCart_def run_def enter_def stuck_driver_def blank_def
        Second_def Let_def)
  have fails: "\<forall>w'. fst (ExecutePurchase stuck_driver ''.shopee-button-solid'' w') \<noteq> None"
    by (simp add: ex)
  have rd: "GetRetryDelay shop_config = 1000000000"
    by (simp add: GetRetryDelay_def shop_config_def wrap64_def Second_def)
  show ?thesis
    using RetryPurchase_three_attempts [OF three, of stuck_driver "''.shopee-button-solid''" start_world]
      fails three
    by (auto simp: ex rd wrap64_def time_Sleep_def start_world_def)
qed

section \<open>The manual-login loop\<close>

lemma js_eval_login_signals: "js_eval r login_signals = login_success_signal r"
  by (simp add: login_signals_def login_success_signal_def)

lemma poll_world_eq:
  "poll_world d w =
     w\<lparr>now := now w + checkInterval + int (latency (d (calls w))),
       calls := Suc (calls w),
       trace := trace w @ [Slept checkInterval, Ran Location]\<rparr>"
  by (simp add: poll_world_def run_def time_Sleep_def checkInterval_def Second_def Let_def)

lemma check_world_eq:
  "check_world d w =
     w\<lparr>now := now w + int (latency (d (calls w))),
       calls := Suc (calls w),
       trace := trace w @ [Ran (Evaluate login_signals)]\<rparr>"
  by (simp add: check_world_def run_def Let_def)

lemma run_Location_poll:
  "run d None Location (time_Sleep checkInterval w) =
     (failure (d (calls w)), d (calls w), poll_world d w)"
  by (simp add: poll_world_def run_def time_Sleep_def Let_def)

lemma run_Evaluate_check:
  "run d None (Evaluate login_signals) w = (failure (d (calls w)), d (calls w), check_world d w)"
  by (simp add: check_world_def run_def Let_def)

lemma loop_timeout:
  "now w - st > maxWaitTime \<Longrightarrow> ManualLogin_loop d st m w = (Some login_timeout, m, w)"
  by (subst ManualLogin_loop.simps) simp

lemma loop_idle:
  "\<not> now w - st > maxWaitTime \<Longrightarrow> idle d (calls w) \<Longrightarrow>
   ManualLogin_loop d st m w = ManualLogin_loop d st m (poll_world d w)"
  by (subst ManualLogin_loop.simps) (auto simp: run_Location_poll idle_def)

lemma loop_unconfirmed:
  "\<not> now w - st > maxWaitTime \<Longrightarrow> \<not> idle d (calls w) \<Longrightarrow> \<not> detects d (calls w) \<Longrightarrow>
   ManualLogin_loop d st m w = ManualLogin_loop d st m (check_world d (poll_world d w))"
  by (subst ManualLogin_loop.simps)
     (auto simp: run_Location_poll run_Evaluate_check idle_def detects_def js_eval_login_signals
        poll_world_eq)

lemma loop_detected:
  "\<not> now w - st > maxWaitTime \<Longrightarrow> detects d (calls w) \<Longrightarrow>
   ManualLogin_loop d st m w =
     SaveSession d (m\<lparr>isLoggedIn := True\<rparr>) (check_world d (poll_world d w))"
  by (subst ManualLogin_loop.simps)
     (auto simp: run_Location_poll run_Evaluate_check detects_def js_eval_login_signals
        poll_world_eq)

lemma loop_undetected:
  "(\<forall>k\<ge>calls w. \<not> detects d k) \<Longrightarrow>
   \<exists>w'. ManualLogin_loop d st m w = (Some login_timeout, m, w') \<and>
        now w' - st > maxWaitTime \<and> now w \<le> now w' \<and>
        session_file w' = session_file w \<and>
        int (count_list (trace w') (Ran Location)) * checkInterval \<le>
          int (count_list (trace w) (Ran Location)) * checkInterval +
          max 0 (maxWaitTime + checkInterval - (now w - st))"
proof (induction "nat (maxWaitTime + 1 - (now w - st))" arbitrary: w rule: less_induct)
  case less
  show ?case
  proof (cases "now w - st > maxWaitTime")
    case True
    then show ?thesis
      by (simp add: loop_timeout)
  next
    case False
    define w2 where "w2 = (if idle d (calls w) then poll_world d w
                           else check_world d (poll_world d w))"
    have nd: "\<not> detects d (calls w)"
      using less.prems by simp
    have step: "ManualLogin_loop d st m w = ManualLogin_loop d st m w2"
      using False nd by (simp add: w2_def loop_idle loop_unconfirmed)
    have now2: "now w + checkInterval \<le> now w2"
      by (simp add: w2_def poll_world_eq check_world_eq)
    have calls2: "calls w \<le> calls w2"
      by (simp add: w2_def poll_world_eq check_world_eq)
    have file2: "session_file w2 = session_file w"
      by (simp add: w2_def poll_world_eq check_world_eq)
    have polls2: "count_list (trace w2) (Ran Location) = Suc (count_list (trace w) (Ran Location))"
      by (simp add: w2_def poll_world_eq check_world_eq)
    have ci: "0 < checkInterval"
      by (simp add: checkInterval_def Second_def)
    have "nat (maxWaitTime + 1 - (now w2 - st)) < nat (maxWaitTime + 1 - (now w - st))"
      using False now2 ci by simp
    moreover have "\<forall>k\<ge>calls w2. \<not> detects d k"
      using less.prems calls2 by simp
    ultimately obtain w' where w':
      "ManualLogin_loop d st m w2 = (Some login_timeout, m, w')"
      "now w' - st > maxWaitTime" "now w2 \<le> now w'" "session_file w' = session_file w2"
      "int (count_list (trace w') (Ran Location)) * checkInterval \<le>
          int (count_list (trace w2) (Ran Location)) * checkInterval +
          max 0 (maxWaitTime + checkInterval - (now w2 - st))"
      using less.hyps [of w2] by blast
    have "int (count_list (trace w') (Ran Location)) * checkInterval \<le>
          int (count_list (trace w) (Ran Location)) * checkInterval +
          max 0 (maxWaitTime + checkInterval - (now w - st))"
      using w'(5) polls2 now2 False ci by (simp add: algebra_simps max_def split: if_splits)
    with w' step now2 ci file2 show ?thesis
      by (intro exI [of _ w']) simp
  qed
qed

lemma poll_world_funpow:
  "(poll_world d ^^ n) w =
     w\<lparr>now := now w + int n * checkInterval + (\<Sum>k<n. int (latency (d (calls w + k)))),
       calls := calls w + n,
       trace := trace w @ concat (replicate n [Slept checkInterval, Ran Location])\<rparr>"
proof (induction n)
  case 0
  show ?case by simp
next
  case (Suc n)
  have "concat (replicate n [Slept checkInterval, Ran Location]) @ [Slept checkInterval, Ran Location]
        = concat (replicate (Suc n) [Slept checkInterval, Ran Location])"
    by (metis concat.simps(2) concat_append concat.simps(1) append_Nil2 replicate_append_same replicate_Suc)
  then show ?case
    using Suc by (simp add: poll_world_eq algebra_simps)
qed

lemma loop_skip_idle:
  "(\<forall>k<n. idle d (calls w + k)) \<Longrightarrow>
   (\<forall>j<n. now ((poll_world d ^^ j) w) - st \<le> maxWaitTime) \<Longrightarrow>
   ManualLogin_loop d st m w = ManualLogin_loop d st m ((poll_world d ^^ n) w)"
proof (induction n)
  case 0
  show ?case by simp
next
  case (Suc n)
  have "ManualLogin_loop d st m w = ManualLogin_loop d st m ((poll_world d ^^ n) w)"
    using Suc by simp
  also have "\<dots> = ManualLogin_loop d st m (poll_world d ((poll_world d ^^ n) w))"
  proof (rule loop_idle)
    show "\<not> maxWaitTime < now ((poll_world d ^^ n) w) - st"
      using Suc.prems(2) by (simp add: not_less)
    show "idle d (calls ((poll_world d ^^ n) w))"
      using Suc.prems(1) by (simp add: poll_world_funpow)
  qed
  finally show ?case by simp
qed

lemma NavigateWithRetry_from_ok:
  "i < maxRetries \<Longrightarrow> fst (run d (Some (30 * Second)) (Navigate url) w) = None \<Longrightarrow>
   NavigateWithRetry_from d url maxRetries i err w =
     (None, snd (snd (run d (Some (30 * Second)) (Navigate url) w)))"
  by (subst NavigateWithRetry_from.simps) (auto split: prod.splits)

lemma NavigateWithRetry_from_retry:
  "i < maxRetries \<Longrightarrow> fst (run d (Some (30 * Second)) (Navigate url) w) = Some e \<Longrightarrow>
   NavigateWithRetry_from d url maxRetries i err w =
     NavigateWithRetry_from d url maxRetries (i + 1) (Some e)
       (if i < maxRetries - 1
        then time_Sleep (wrap64 (wrap64 (i + 1) * Second))
               (snd (snd (run d (Some (30 * Second)) (Navigate url) w)))
        else snd (snd (run d (Some (30 * Second)) (Navigate url) w)))"
  by (subst NavigateWithRetry_from.simps) (auto split: prod.splits)

lemma NavigateWithRetry_from_exhausted:
  "\<not> i < maxRetries \<Longrightarrow>
   NavigateWithRetry_from d url maxRetries i err w =
     (Some (Errorf ''failed to navigate to %s after %d retries: %w''
              [AStr url, AInt maxRetries] err), w)"
  by (subst NavigateWithRetry_from.simps) simp

lemma NavigateWithRetry_first_try:
  "failure (d (calls w)) = None \<Longrightarrow> int (latency (d (calls w))) \<le> 30 * Second \<Longrightarrow>
   NavigateWithRetry d url 3 w =
     (None, w\<lparr>now := now w + int (latency (d (calls w))), calls := Suc (calls w),
              trace := trace w @ [Ran (Navigate url)]\<rparr>)"
  unfolding NavigateWithRetry_def
  by (subst NavigateWithRetry_from_ok) (simp_all add: run_def Let_def min_def)

lemma contains_login_url: "contains login_url login_path"
  by (simp add: contains_sublist login_url_def login_path_def sublist_Cons_right)

lemma contains_home_url: "\<not> contains home_url login_path"
  by (simp add: contains_sublist home_url_def login_path_def sublist_Cons_right)

text \<open>
  C4 (amended). For every driver under which the navigation to the login page succeeds and
  no poll ever detects a login-success signal, ManualLogin terminates with the timeout
  error; when it returns, more than the five-minute ceiling has passed since the loop
  started (not before the ceiling), and the loop has made at most 151 polls.
\<close>

theorem ManualLogin_times_out:
  assumes nav: "NavigateWithRetry d (BaseURL cfg @ login_path) 3 (enter FnManualLogin w) = (None, w1)"
    and never: "\<forall>k\<ge>calls w1. \<not> detects d k"
  shows "\<exists>w'. ManualLogin cfg d m w = (Some login_timeout, m, w') \<and>
              now w' - now w1 > maxWaitTime \<and>
              count_list (trace w') (Ran Location) \<le> count_list (trace w1) (Ran Location) + 151"
proof -
  obtain w' where w':
    "ManualLogin_loop d (now w1) m w1 = (Some login_timeout, m, w')"
    "now w' - now w1 > maxWaitTime"
    "int (count_list (trace w') (Ran Location)) * checkInterval \<le>
       int (count_list (trace w1) (Ran Location)) * checkInterval +
       max 0 (maxWaitTime + checkInterval - (now w1 - now w1))"
    using loop_undetected [OF never, of "now w1" m] by blast
  have "count_list (trace w') (Ran Location) \<le> count_list (trace w1) (Ran Location) + 151"
    using w'(3) by (simp add: checkInterval_def maxWaitTime_def Second_def Minute_def)
  moreover have "ManualLogin cfg d m w = ManualLogin_loop d (now w1) m w1"
    by (simp add: ManualLogin_def nav)
  ultimately show ?thesis
    using w'(1,2) by auto
qed

text \<open>C4 (amended) at a browser that stays on the login page for ever.\<close>

theorem ManualLogin_times_out_witness:
  "NavigateWithRetry never_logged_in (BaseURL shop_config @ login_path) 3
     (enter FnManualLogin start_world) = (None, after_navigation) \<and>
   (\<forall>k. \<not> detects never_logged_in k) \<and>
   (\<exists>w'. ManualLogin shop_config never_logged_in NewManager start_world =
            (Some login_timeout, NewManager, w') \<and>
          now w' - now after_navigation > maxWaitTime \<and>
          count_list (trace w') (Ran Location)
            \<le> count_list (trace after_navigation) (Ran Location) + 151)"
proof -
  have nav: "NavigateWithRetry never_logged_in (BaseURL shop_config @ login_path) 3
     (enter FnManualLogin start_world) = (None, after_navigation)"
    by (subst NavigateWithRetry_first_try)
       (simp_all add: never_logged_in_def blank_def enter_def start_world_def after_navigation_def
          shop_login_url_def Second_def)
  have always: "\<forall>k. \<not> detects never_logged_in k"
    by (simp add: detects_def never_logged_in_def blank_def contains_login_url
        login_success_signal_def)
  then have never: "\<forall>k\<ge>calls after_navigation. \<not> detects never_logged_in k"
    by simp
  show ?thesis
    using ManualLogin_times_out [OF nav never, of NewManager] nav always
    by (intro conjI)
qed

text \<open>
  C4 as stated fails at a driver whose every call fails: it never reports a login-success
  signal, and ManualLogin returns the navigation error after three seconds, not the
  timeout error after the ceiling.
\<close>

theorem ManualLogin_navigation_failure_counterexample:
  "ManualLogin shop_config stuck_driver NewManager start_world =
     (Some (Errorf ''failed to navigate to login page: %w'' []
        (Some (Errorf ''failed to navigate to %s after %d retries: %w''
           [AStr shop_login_url, AInt 3] (Some (Failure ''driver call failed''))))),
      NewManager,
      \<lparr>now = 3000000000, calls = 3,
       trace = [Entered FnManualLogin, Ran (Navigate shop_login_url), Slept 1000000000,
                Ran (Navigate shop_login_url), Slept 2000000000, Ran (Navigate shop_login_url)],
       session_file = Missing\<rparr>)"
proof -
  have r: "run stuck_driver (Some (30 * Second)) (Navigate url) w =
      (Some (Failure ''driver call failed''), stuck_driver (calls w),
       w\<lparr>now := now w, calls := Suc (calls w), trace := trace w @ [Ran (Navigate url)]\<rparr>)"
    for url w
    by (simp add: run_def stuck_driver_def blank_def Second_def Let_def)
  have "NavigateWithRetry stuck_driver shop_login_url 3 (enter FnManualLogin start_world) =
      (Some (Errorf ''failed to navigate to %s after %d retries: %w''
           [AStr shop_login_url, AInt 3] (Some (Failure ''driver call failed''))),
       \<lparr>now = 3000000000, calls = 3,
        trace = [Entered FnManualLogin, Ran (Navigate shop_login_url), Slept 1000000000,
                 Ran (Navigate shop_login_url), Slept 2000000000, Ran (Navigate shop_login_url)],
        session_file = Missing\<rparr>)"
    unfolding NavigateWithRetry_def
    apply (subst NavigateWithRetry_from_retry [where e = "Failure ''driver call failed''"])
      apply (simp_all add: r)
    apply (subst NavigateWithRetry_from_retry [where e = "Failure ''driver call failed''"])
      apply (simp_all add: r)
    apply (subst NavigateWithRetry_from_retry [where e = "Failure ''driver call failed''"])
      apply (simp_all add: r)
    apply (subst NavigateWithRetry_from_exhausted)
     apply (simp_all add: time_Sleep_def enter_def start_world_def wrap64_def Second_def)
    done
  then show ?thesis
    by (simp add: ManualLogin_def shop_login_url_def)
qed

lemma count_list_concat_replicate:
  "count_list (concat (replicate n xs)) x = n * count_list xs x"
  by (induction n) simp_all

lemma SaveSession_ok:
  "failure (d (calls w)) = None \<Longrightarrow> failure (d (Suc (calls w))) = None \<Longrightarrow>
   failure (d (Suc (Suc (calls w)))) = None \<Longrightarrow>
   SaveSession d m w =
     (None, m\<lparr>cookies := jar (d (calls w)), isLoggedIn := True\<rparr>,
      w\<lparr>now := now w + int (latency (d (calls w))) + int (latency (d (Suc (calls w))))
                + int (latency (d (Suc (Suc (calls w))))),
        calls := Suc (Suc (Suc (calls w))),
        trace := trace w @ [Entered FnSaveSession, Ran GetCookies, Ran MarshalIndent, Ran WriteFile],
        session_file := Stored (map Some (jar (d (calls w))))\<rparr>)"
  by (simp add: SaveSession_def run_def enter_def Let_def)

lemma loop_detects_after_idle:
  assumes idle: "\<forall>k<n. idle d (calls w + k)"
    and det: "detects d (calls w + n)"
    and in_time: "now w - st + int n * checkInterval + (\<Sum>k<n. int (latency (d (calls w + k))))
                  \<le> maxWaitTime"
  shows "ManualLogin_loop d st m w =
           SaveSession d (m\<lparr>isLoggedIn := True\<rparr>)
             (check_world d (poll_world d ((poll_world d ^^ n) w)))"
proof -
  have ci: "0 \<le> checkInterval"
    by (simp add: checkInterval_def Second_def)
  have mono: "now ((poll_world d ^^ j) w) \<le> now ((poll_world d ^^ n) w)" if "j \<le> n" for j
  proof -
    have "(\<Sum>k<j. int (latency (d (calls w + k)))) \<le> (\<Sum>k<n. int (latency (d (calls w + k))))"
      using that by (intro sum_mono2) auto
    moreover have "int j * checkInterval \<le> int n * checkInterval"
      using that ci by (simp add: mult_right_mono)
    ultimately show ?thesis
      by (simp add: poll_world_funpow)
  qed
  have last: "now ((poll_world d ^^ n) w) - st \<le> maxWaitTime"
    using in_time by (simp add: poll_world_funpow algebra_simps)
  have "\<forall>j<n. now ((poll_world d ^^ j) w) - st \<le> maxWaitTime"
  proof (intro allI impI)
    fix j assume "j < n"
    then have "now ((poll_world d ^^ j) w) \<le> now ((poll_world d ^^ n) w)"
      using mono [of j] by simp
    with last show "now ((poll_world d ^^ j) w) - st \<le> maxWaitTime" by simp
  qed
  with idle have "ManualLogin_loop d st m w = ManualLogin_loop d st m ((poll_world d ^^ n) w)"
    by (rule loop_skip_idle)
  also have "\<dots> = SaveSession d (m\<lparr>isLoggedIn := True\<rparr>)
             (check_world d (poll_world d ((poll_world d ^^ n) w)))"
  proof (rule loop_detected)
    show "\<not> maxWaitTime < now ((poll_world d ^^ n) w) - st"
      using last by simp
    show "detects d (calls ((poll_world d ^^ n) w))"
      using det by (simp add: poll_world_funpow)
  qed
  finally show ?thesis .
qed

text \<open>
  C1 (amended). In every run of ManualLogin in which the navigation to the login page
  succeeds, the driver reports a URL on the login path for the first \<open>N\<close> polls and then a
  URL off the login path together with a login-success signal, and the \<open>(N+1)\<close>-th poll
  begins within the ceiling (\<open>N\<close> sleeps of two seconds plus the time of the \<open>N\<close>
  \<open>Location\<close> calls is at most five minutes): ManualLogin makes exactly \<open>N + 1\<close> polls,
  has not called SaveSession before, then calls SaveSession and returns its result; when
  reading the cookies, serialising and writing them succeed, the result is \<open>nil\<close>, with
  the cookies read from the driver in memory and the authenticated flag set.
\<close>

theorem ManualLogin_detects_on_poll:
  assumes nav: "NavigateWithRetry d (BaseURL cfg @ login_path) 3 (enter FnManualLogin w) = (None, w1)"
    and on_login: "\<forall>k<N. failure (d (calls w1 + k)) = None \<and>
                          contains (location (d (calls w1 + k))) login_path"
    and off_login: "failure (d (calls w1 + N)) = None \<and>
                    \<not> contains (location (d (calls w1 + N))) login_path"
    and signal: "failure (d (calls w1 + N + 1)) = None \<and>
                 login_success_signal (d (calls w1 + N + 1))"
    and in_time: "int N * checkInterval + (\<Sum>k<N. int (latency (d (calls w1 + k))))
                  \<le> maxWaitTime"
  shows "\<exists>w3. ManualLogin cfg d m w = SaveSession d (m\<lparr>isLoggedIn := True\<rparr>) w3 \<and>
              calls w3 = calls w1 + N + 2 \<and>
              count_list (trace w3) (Ran Location) = count_list (trace w1) (Ran Location) + N + 1 \<and>
              count_list (trace w3) (Entered FnSaveSession) =
                count_list (trace w1) (Entered FnSaveSession) \<and>
              (failure (d (calls w3)) = None \<and> failure (d (calls w3 + 1)) = None \<and>
               failure (d (calls w3 + 2)) = None \<longrightarrow>
                 fst (ManualLogin cfg d m w) = None \<and>
                 cookies (fst (snd (ManualLogin cfg d m w))) = jar (d (calls w3)) \<and>
                 isLoggedIn (fst (snd (ManualLogin cfg d m w))))"
proof -
  define w3 where "w3 = check_world d (poll_world d ((poll_world d ^^ N) w1))"
  have idle: "\<forall>k<N. idle d (calls w1 + k)"
    using on_login by (simp add: idle_def)
  have det: "detects d (calls w1 + N)"
    using off_login signal by (simp add: detects_def)
  have "ManualLogin_loop d (now w1) m w1 = SaveSession d (m\<lparr>isLoggedIn := True\<rparr>) w3"
    unfolding w3_def using idle det in_time by (intro loop_detects_after_idle) simp_all
  then have res: "ManualLogin cfg d m w = SaveSession d (m\<lparr>isLoggedIn := True\<rparr>) w3"
    by (simp add: ManualLogin_def nav)
  have c3: "calls w3 = calls w1 + N + 2"
    by (simp add: w3_def check_world_eq poll_world_eq poll_world_funpow)
  have polls: "count_list (trace w3) (Ran Location) = count_list (trace w1) (Ran Location) + N + 1"
    by (simp add: w3_def check_world_eq poll_world_eq poll_world_funpow count_list_concat_replicate)
  have saves: "count_list (trace w3) (Entered FnSaveSession) =
               count_list (trace w1) (Entered FnSaveSession)"
    by (simp add: w3_def check_world_eq poll_world_eq poll_world_funpow count_list_concat_replicate)
  have ok: "fst (ManualLogin cfg d m w) = None \<and>
            cookies (fst (snd (ManualLogin cfg d m w))) = jar (d (calls w3)) \<and>
            isLoggedIn (fst (snd (ManualLogin cfg d m w)))"
    if "failure (d (calls w3)) = None \<and> failure (d (calls w3 + 1)) = None \<and>
        failure (d (calls w3 + 2)) = None"
    using that by (simp add: res SaveSession_ok)
  from res c3 polls saves ok show ?thesis
    by blast
qed

lemma latency_login_after: "latency (login_after n k) = 0"
  by (simp add: login_after_def blank_def)

lemma navigation_login_after:
  "NavigateWithRetry (login_after n) (BaseURL shop_config @ login_path) 3
     (enter FnManualLogin start_world) = (None, after_navigation)"
  by (subst NavigateWithRetry_first_try)
     (simp_all add: login_after_def blank_def enter_def start_world_def after_navigation_def
        shop_login_url_def Second_def)

text \<open>C1 (amended) at a user who logs in during the third poll.\<close>

theorem ManualLogin_detects_on_poll_witness:
  "NavigateWithRetry (login_after 2) (BaseURL shop_config @ login_path) 3
     (enter FnManualLogin start_world) = (None, after_navigation) \<and>
   (failure (login_after 2 (calls after_navigation + 0)) = None \<and>
    contains (location (login_after 2 (calls after_navigation + 0))) login_path) \<and>
   (failure (login_after 2 (calls after_navigation + 1)) = None \<and>
    contains (location (login_after 2 (calls after_navigation + 1))) login_path) \<and>
   (failure (login_after 2 (calls after_navigation + 2)) = None \<and>
    \<not> contains (location (login_after 2 (calls after_navigation + 2))) login_path) \<and>
   (failure (login_after 2 (calls after_navigation + 2 + 1)) = None \<and>
    login_success_signal (login_after 2 (calls after_navigation + 2 + 1))) \<and>
   int 2 * checkInterval + (\<Sum>k<2. int (latency (login_after 2 (calls after_navigation + k))))
     \<le> maxWaitTime \<and>
   fst (ManualLogin shop_config (login_after 2) NewManager start_world) = None \<and>
   cookies (fst (snd (ManualLogin shop_config (login_after 2) NewManager start_world))) =
     [session_cookie] \<and>
   isLoggedIn (fst (snd (ManualLogin shop_config (login_after 2) NewManager start_world)))"
proof -
  have on_login: "\<forall>k<2. failure (login_after 2 (calls after_navigation + k)) = None \<and>
      contains (location (login_after 2 (calls after_navigation + k))) login_path"
    by (simp add: login_after_def blank_def after_navigation_def contains_login_url)
  have off_login: "failure (login_after 2 (calls after_navigation + 2)) = None \<and>
      \<not> contains (location (login_after 2 (calls after_navigation + 2))) login_path"
    by (simp add: login_after_def blank_def after_navigation_def contains_home_url)
  have signal: "failure (login_after 2 (calls after_navigation + 2 + 1)) = None \<and>
      login_success_signal (login_after 2 (calls after_navigation + 2 + 1))"
    by (simp add: login_after_def blank_def after_navigation_def login_success_signal_def)
  have in_time: "int 2 * checkInterval +
      (\<Sum>k<2. int (latency (login_after 2 (calls after_navigation + k)))) \<le> maxWaitTime"
    by (simp add: latency_login_after checkInterval_def maxWaitTime_def Second_def Minute_def)
  from ManualLogin_detects_on_poll [OF navigation_login_after on_login off_login signal in_time,
        of NewManager]
  obtain w3 where w3:
    "ManualLogin shop_config (login_after 2) NewManager start_world =
       SaveSession (login_after 2) (NewManager\<lparr>isLoggedIn := True\<rparr>) w3 \<and>
     calls w3 = calls after_navigation + 2 + 2 \<and>
     count_list (trace w3) (Ran Location) =
       count_list (trace after_navigation) (Ran Location) + 2 + 1 \<and>
     count_list (trace w3) (Entered FnSaveSession) =
       count_list (trace after_navigation) (Entered FnSaveSession) \<and>
     (failure (login_after 2 (calls w3)) = None \<and>
      failure (login_after 2 (calls w3 + 1)) = None \<and>
      failure (login_after 2 (calls w3 + 2)) = None \<longrightarrow>
      fst (ManualLogin shop_config (login_after 2) NewManager start_world) = None \<and>
      cookies (fst (snd (ManualLogin shop_config (login_after 2) NewManager start_world))) =
        jar (login_after 2 (calls w3)) \<and>
      isLoggedIn (fst (snd (ManualLogin shop_config (login_after 2) NewManager start_world))))"
    ..
  note c3 = conjunct1 [OF conjunct2 [OF w3]]
  note ok = conjunct2 [OF conjunct2 [OF conjunct2 [OF conjunct2 [OF w3]]]]
  have five: "calls w3 = 5"
    using c3 by (simp add: after_navigation_def)
  have "fst (ManualLogin shop_config (login_after 2) NewManager start_world) = None \<and>
        cookies (fst (snd (ManualLogin shop_config (login_after 2) NewManager start_world))) =
          [session_cookie] \<and>
        isLoggedIn (fst (snd (ManualLogin shop_config (login_after 2) NewManager start_world)))"
    using ok by (simp add: five login_after_def blank_def)
  moreover have "failure (login_after 2 (calls after_navigation + 0)) = None \<and>
      contains (location (login_after 2 (calls after_navigation + 0))) login_path"
    "failure (login_after 2 (calls after_navigation + 1)) = None \<and>
      contains (location (login_after 2 (calls after_navigation + 1))) login_path"
    by (simp_all add: login_after_def blank_def after_navigation_def contains_login_url)
  ultimately show ?thesis
    using navigation_login_after off_login signal in_time by blast
qed

lemma late_login_times_out:
  "fst (ManualLogin shop_config (login_after 151) NewManager start_world) = Some login_timeout"
proof -
  have idle: "\<forall>k<151. idle (login_after 151) (calls after_navigation + k)"
    by (simp add: idle_def login_after_def blank_def after_navigation_def contains_login_url)
  have checks: "\<forall>j<151. now ((poll_world (login_after 151) ^^ j) after_navigation)
      - now after_navigation \<le> maxWaitTime"
    by (simp add: poll_world_funpow latency_login_after checkInterval_def maxWaitTime_def
        Second_def Minute_def)
  have "ManualLogin_loop (login_after 151) (now after_navigation) NewManager after_navigation =
        ManualLogin_loop (login_after 151) (now after_navigation) NewManager
          ((poll_world (login_after 151) ^^ 151) after_navigation)"
    using idle checks by (rule loop_skip_idle)
  also have "\<dots> = (Some login_timeout, NewManager,
                    (poll_world (login_after 151) ^^ 151) after_navigation)"
    by (rule loop_timeout)
       (simp add: poll_world_funpow latency_login_after checkInterval_def maxWaitTime_def
          Second_def Minute_def)
  finally show ?thesis
    by (simp add: ManualLogin_def navigation_login_after)
qed

lemma unreadable_cookies_fail:
  "fst (ManualLogin shop_config cookies_unreadable NewManager start_world) =
     Some (Errorf ''failed to get cookies: %w'' [] (Some (Failure ''driver call failed'')))"
proof -
  have nav: "NavigateWithRetry cookies_unreadable (BaseURL shop_config @ login_path) 3
     (enter FnManualLogin start_world) = (None, after_navigation)"
    by (subst NavigateWithRetry_first_try)
       (simp_all add: cookies_unreadable_def blank_def enter_def start_world_def
          after_navigation_def shop_login_url_def Second_def)
  have det: "detects cookies_unreadable (calls after_navigation)"
    by (simp add: detects_def cookies_unreadable_def blank_def after_navigation_def
        contains_home_url login_success_signal_def)
  have "ManualLogin_loop cookies_unreadable (now after_navigation) NewManager after_navigation =
        SaveSession cookies_unreadable (NewManager\<lparr>isLoggedIn := True\<rparr>)
          (check_world cookies_unreadable (poll_world cookies_unreadable after_navigation))"
    using det by (intro loop_detected) (simp_all add: maxWaitTime_def Minute_def)
  then have "fst (ManualLogin_loop cookies_unreadable (now after_navigation) NewManager
                    after_navigation) =
      Some (Errorf ''failed to get cookies: %w'' [] (Some (Failure ''driver call failed'')))"
    by (simp add: SaveSession_def run_def enter_def check_world_eq poll_world_eq
        cookies_unreadable_def blank_def after_navigation_def Let_def)
  then show ?thesis
    by (simp add: ManualLogin_def nav)
qed

text \<open>
  C1 as stated fails at \<open>N = 151\<close> with a driver that answers at once: the 152nd poll
  would see the authenticated page, but 302 seconds have passed and ManualLogin returns the
  timeout error. It also fails at \<open>N = 0\<close> when the cookies cannot be read: the login is
  detected at the first poll and ManualLogin returns the error of SaveSession.
\<close>

theorem ManualLogin_late_login_counterexample:
  "fst (ManualLogin shop_config (login_after 151) NewManager start_world) = Some login_timeout \<and>
   fst (ManualLogin shop_config cookies_unreadable NewManager start_world) =
     Some (Errorf ''failed to get cookies: %w'' [] (Some (Failure ''driver call failed'')))"
  using late_login_times_out unreadable_cookies_fail by simp

text \<open>
  C5 (amended). ManualLogin does not observe the cancellation signal. Once the context is
  cancelled (every driver call from call \<open>c\<close> on fails with \<open>Canceled\<close>), a poll whose
  driver call fails for that reason continues the loop with the next poll, and, no login
  having been detected before, ManualLogin returns the timeout error, and only after the
  five-minute ceiling.
\<close>

theorem ManualLogin_ignores_cancellation:
  assumes nav: "NavigateWithRetry d (BaseURL cfg @ login_path) 3 (enter FnManualLogin w) = (None, w1)"
    and later: "calls w1 \<le> c"
    and cancelled: "\<forall>k\<ge>c. failure (d k) = Some Canceled"
    and before: "\<forall>k. calls w1 \<le> k \<and> k < c \<longrightarrow> \<not> detects d k"
  shows "(\<forall>st m' w2. c \<le> calls w2 \<and> now w2 - st \<le> maxWaitTime \<longrightarrow>
            ManualLogin_loop d st m' w2 = ManualLogin_loop d st m' (poll_world d w2)) \<and>
         (\<exists>w'. ManualLogin cfg d m w = (Some login_timeout, m, w') \<and>
               now w' - now w1 > maxWaitTime)"
proof
  show "\<forall>st m' w2. c \<le> calls w2 \<and> now w2 - st \<le> maxWaitTime \<longrightarrow>
            ManualLogin_loop d st m' w2 = ManualLogin_loop d st m' (poll_world d w2)"
    using cancelled by (auto intro!: loop_idle simp: idle_def)
next
  have "\<not> detects d k" if "calls w1 \<le> k" for k
  proof (cases "k < c")
    case True
    with that before show ?thesis by simp
  next
    case False
    with cancelled have "failure (d k) = Some Canceled" by simp
    then show ?thesis by (simp add: detects_def)
  qed
  then have "\<forall>k\<ge>calls w1. \<not> detects d k" by simp
  from loop_undetected [OF this, of "now w1" m]
  show "\<exists>w'. ManualLogin cfg d m w = (Some login_timeout, m, w') \<and>
               now w' - now w1 > maxWaitTime"
    by (auto simp: ManualLogin_def nav)
qed

text \<open>C5 (amended) at a context cancelled right after the navigation.\<close>

theorem ManualLogin_ignores_cancellation_witness:
  "NavigateWithRetry cancelled_after_navigation (BaseURL shop_config @ login_path) 3
     (enter FnManualLogin start_world) = (None, after_navigation) \<and>
   calls after_navigation \<le> 1 \<and>
   (\<forall>k. failure (cancelled_after_navigation (k + 1)) = Some Canceled) \<and>
   {k. calls after_navigation \<le> k \<and> k < 1} = {} \<and>
   ManualLogin_loop cancelled_after_navigation 0 NewManager after_navigation =
     ManualLogin_loop cancelled_after_navigation 0 NewManager
       (poll_world cancelled_after_navigation after_navigation) \<and>
   (\<exists>w'. ManualLogin shop_config cancelled_after_navigation NewManager start_world =
            (Some login_timeout, NewManager, w') \<and>
          now w' - now after_navigation > maxWaitTime)"
proof -
  have nav: "NavigateWithRetry cancelled_after_navigation (BaseURL shop_config @ login_path) 3
     (enter FnManualLogin start_world) = (None, after_navigation)"
    by (subst NavigateWithRetry_first_try)
       (simp_all add: cancelled_after_navigation_def blank_def enter_def start_world_def
          after_navigation_def shop_login_url_def Second_def)
  have later: "calls after_navigation \<le> 1"
    by (simp add: after_navigation_def)
  have cancelled: "\<forall>k\<ge>1. failure (cancelled_after_navigation k) = Some Canceled"
    by (simp add: cancelled_after_navigation_def)
  have before: "\<forall>k. calls after_navigation \<le> k \<and> k < 1 \<longrightarrow>
      \<not> detects cancelled_after_navigation k"
    by (simp add: after_navigation_def)
  note ignored = ManualLogin_ignores_cancellation [OF nav later cancelled before, of NewManager]
  have "1 \<le> calls after_navigation \<and> now after_navigation - 0 \<le> maxWaitTime"
    by (simp add: after_navigation_def maxWaitTime_def Minute_def)
  with conjunct1 [OF ignored]
  have continues: "ManualLogin_loop cancelled_after_navigation 0 NewManager after_navigation =
     ManualLogin_loop cancelled_after_navigation 0 NewManager
       (poll_world cancelled_after_navigation after_navigation)"
    by blast
  have "\<forall>k. failure (cancelled_after_navigation (k + 1)) = Some Canceled"
    by (simp add: cancelled_after_navigation_def)
  moreover have "{k. calls after_navigation \<le> k \<and> k < 1} = {}"
    by (auto simp: after_navigation_def)
  ultimately show ?thesis
    using conjunct2 [OF ignored] nav later continues by blast
qed

text \<open>
  C5 as stated fails at a context cancelled right after the navigation: ManualLogin goes
  on for 151 polls and 302 seconds and then returns the timeout error, not a cancellation
  result within one two-second tick.
\<close>

theorem ManualLogin_cancelled_counterexample:
  "fst (ManualLogin shop_config cancelled_after_navigation NewManager start_world) =
     Some login_timeout \<and>
   now (snd (snd (ManualLogin shop_config cancelled_after_navigation NewManager start_world))) =
     302 * Second \<and>
   count_list
     (trace (snd (snd (ManualLogin shop_config cancelled_after_navigation NewManager
                         start_world))))
     (Ran Location) = 151"
proof -
  have nav: "NavigateWithRetry cancelled_after_navigation (BaseURL shop_config @ login_path) 3
     (enter FnManualLogin start_world) = (None, after_navigation)"
    by (subst NavigateWithRetry_first_try)
       (simp_all add: cancelled_after_navigation_def blank_def enter_def start_world_def
          after_navigation_def shop_login_url_def Second_def)
  have lat: "latency (cancelled_after_navigation k) = 0" for k
    by (simp add: cancelled_after_navigation_def blank_def)
  have idle: "\<forall>k<151. idle cancelled_after_navigation (calls after_navigation + k)"
    by (simp add: idle_def cancelled_after_navigation_def after_navigation_def)
  have checks: "\<forall>j<151. now ((poll_world cancelled_after_navigation ^^ j) after_navigation)
      - now after_navigation \<le> maxWaitTime"
    by (simp add: poll_world_funpow lat checkInterval_def maxWaitTime_def Second_def Minute_def)
  have "ManualLogin_loop cancelled_after_navigation (now after_navigation) NewManager
          after_navigation =
        ManualLogin_loop cancelled_after_navigation (now after_navigation) NewManager
          ((poll_world cancelled_after_navigation ^^ 151) after_navigation)"
    using idle checks by (rule loop_skip_idle)
  also have "\<dots> = (Some login_timeout, NewManager,
                    (poll_world cancelled_after_navigation ^^ 151) after_navigation)"
    by (rule loop_timeout)
       (simp add: poll_world_funpow lat checkInterval_def maxWaitTime_def Second_def Minute_def)
  finally show ?thesis
    by (simp add: ManualLogin_def nav poll_world_funpow lat count_list_concat_replicate
        after_navigation_def checkInterval_def Second_def)
qed

section \<open>Login: session reuse and the choice of a login strategy\<close>

lemma entries_run: "entries f (snd (snd (run d t a w))) = entries f w"
  by (simp add: entries_def run_def Let_def)

lemma entries_time_Sleep: "entries f (time_Sleep dur w) = entries f w"
  by (simp add: entries_def time_Sleep_def)

lemma entries_enter: "entries f (enter g w) = entries f w + (if f = g then 1 else 0)"
  by (simp add: entries_def enter_def)

lemma entries_session_file: "entries f (w\<lparr>session_file := x\<rparr>) = entries f w"
  by (simp add: entries_def)

lemma entries_NavigateWithRetry_from:
  "entries f (snd (NavigateWithRetry_from d url maxRetries i err w)) = entries f w"
  supply [simp] = entries_run entries_time_Sleep entries_enter entries_session_file
proof (induction d url maxRetries i err w rule: NavigateWithRetry_from.induct)
  case (1 d url maxRetries i err w)
  show ?case
  proof (cases "i < maxRetries")
    case False
    then show ?thesis
      by (simp add: NavigateWithRetry_from_exhausted)
  next
    case True
    obtain err' r w1 where run: "run d (Some (30 * Second)) (Navigate url) w = (err', r, w1)"
      by (metis prod_cases3)
    have w1: "entries f w1 = entries f w"
      using entries_run [of f d "Some (30 * Second)" "Navigate url" w] by (simp add: run)
    show ?thesis
    proof (cases err')
      case None
      then show ?thesis
        using True run w1 by (simp add: NavigateWithRetry_from_ok)
    next
      case (Some e)
      have "entries f (snd (NavigateWithRetry_from d url maxRetries (i + 1) err'
              (if i < maxRetries - 1 then time_Sleep (wrap64 (wrap64 (i + 1) * Second)) w1 else w1)))
            = entries f (if i < maxRetries - 1
                         then time_Sleep (wrap64 (wrap64 (i + 1) * Second)) w1 else w1)"
        using "1.IH" [OF True, of err' "(r, w1)" r w1] run Some by simp
      then show ?thesis
        using True run w1 Some by (auto simp add: NavigateWithRetry_from_retry split: if_splits)
    qed
  qed
qed

lemma entries_NavigateWithRetry:
  "entries f (snd (NavigateWithRetry d url maxRetries w)) = entries f w"
  by (simp add: NavigateWithRetry_def entries_NavigateWithRetry_from)

lemma entries_SaveSession:
  "entries f (snd (snd (SaveSession d m w))) = entries f w + (if f = FnSaveSession then 1 else 0)"
  by (simp add: SaveSession_def run_def enter_def entries_def Let_def split: option.splits)

lemma entries_LoadSession:
  "entries f (snd (snd (LoadSession d m w))) = entries f w + (if f = FnLoadSession then 1 else 0)"
  by (simp add: LoadSession_def run_def enter_def entries_def Let_def split: file_state.splits)

lemma entries_ValidateSession:
  "entries f (snd (ValidateSession cfg d w)) =
     entries f w + (if f = FnValidateSession then 1 else 0)"
  supply [simp] = entries_run entries_time_Sleep entries_enter entries_session_file
    entries_NavigateWithRetry entries_SaveSession entries_LoadSession
proof -
  obtain e w1 where nav: "NavigateWithRetry d (BaseURL cfg) 3 (enter FnValidateSession w) = (e, w1)"
    by (metis prod.exhaust)
  have "entries f w1 = entries f w + (if f = FnValidateSession then 1 else 0)"
    using entries_NavigateWithRetry [of f d "BaseURL cfg" 3 "enter FnValidateSession w"]
    by (simp add: nav)
  then show ?thesis
    by (auto simp: ValidateSession_def nav run_def time_Sleep_def entries_def Let_def
        split: option.splits)
qed

lemma entries_poll_world: "entries f (poll_world d w) = entries f w"
  by (simp add: poll_world_eq entries_def)

lemma entries_check_world: "entries f (check_world d w) = entries f w"
  by (simp add: check_world_eq entries_def)

lemma entries_ManualLogin_loop:
  "f \<noteq> FnSaveSession \<Longrightarrow> entries f (snd (snd (ManualLogin_loop d st m w))) = entries f w"
  supply [simp] = entries_run entries_time_Sleep entries_enter entries_session_file
    entries_NavigateWithRetry entries_SaveSession entries_LoadSession entries_ValidateSession
    entries_poll_world entries_check_world
proof (induction "nat (maxWaitTime + 1 - (now w - st))" arbitrary: w rule: less_induct)
  case less
  have ci: "0 < checkInterval"
    by (simp add: checkInterval_def Second_def)
  show ?case
  proof (cases "now w - st > maxWaitTime")
    case True
    then show ?thesis
      by (simp add: loop_timeout)
  next
    case False
    show ?thesis
    proof (cases "detects d (calls w)")
      case True
      with False less.prems show ?thesis
        by (simp add: loop_detected)
    next
      case nd: False
      define w2 where "w2 = (if idle d (calls w) then poll_world d w
                             else check_world d (poll_world d w))"
      have step: "ManualLogin_loop d st m w = ManualLogin_loop d st m w2"
        using False nd by (simp add: w2_def loop_idle loop_unconfirmed)
      have "now w + checkInterval \<le> now w2"
        by (simp add: w2_def poll_world_eq check_world_eq)
      then have "nat (maxWaitTime + 1 - (now w2 - st)) < nat (maxWaitTime + 1 - (now w - st))"
        using False ci by simp
      then have "entries f (snd (snd (ManualLogin_loop d st m w2))) = entries f w2"
        using less.hyps [of w2] less.prems by simp
      moreover have "entries f w2 = entries f w"
        by (simp add: w2_def)
      ultimately show ?thesis
        by (simp add: step)
    qed
  qed
qed

lemma entries_ManualLogin:
  assumes "f \<noteq> FnSaveSession"
  shows "entries f (snd (snd (ManualLogin cfg d m w))) =
           entries f w + (if f = FnManualLogin then 1 else 0)"
  supply [simp] = entries_run entries_time_Sleep entries_enter entries_session_file
    entries_NavigateWithRetry entries_SaveSession entries_LoadSession entries_ValidateSession
    entries_poll_world entries_check_world
proof -
  obtain e w1 where nav:
    "NavigateWithRetry d (BaseURL cfg @ login_path) 3 (enter FnManualLogin w) = (e, w1)"
    by (metis prod.exhaust)
  have "entries f w1 = entries f w + (if f = FnManualLogin then 1 else 0)"
    using entries_NavigateWithRetry [of f d "BaseURL cfg @ login_path" 3 "enter FnManualLogin w"]
    by (simp add: nav)
  then show ?thesis
    using assms by (cases e) (simp_all add: ManualLogin_def nav entries_ManualLogin_loop)
qed

lemma entries_WaitForElement: "entries f (snd (WaitForElement d sel t w)) = entries f w"
  by (simp add: WaitForElement_def run_def entries_def Let_def)

lemma entries_browser_Type: "entries f (snd (browser_Type d sel txt w)) = entries f w"
  by (simp add: browser_Type_def run_def entries_def Let_def)

lemma entries_browser_Click: "entries f (snd (browser_Click d sel w)) = entries f w"
  by (simp add: browser_Click_def run_def entries_def Let_def)

lemma entries_PerformLogin:
  assumes f: "f \<noteq> FnSaveSession"
  shows "entries f (snd (snd (PerformLogin cfg d m w))) =
           entries f w + (if f = FnPerformLogin then 1 else 0)"
  supply [simp] = entries_run entries_time_Sleep entries_enter entries_session_file
    entries_NavigateWithRetry entries_SaveSession entries_LoadSession entries_ValidateSession
    entries_poll_world entries_check_world entries_WaitForElement entries_browser_Type
    entries_browser_Click
proof -
  define n where "n = entries f w + (if f = FnPerformLogin then 1 else 0)"
  obtain e w1 where nav:
    "NavigateWithRetry d (BaseURL cfg @ login_path) 3 (enter FnPerformLogin w) = (e, w1)"
    by (metis prod.exhaust)
  have w1: "entries f w1 = n"
    using entries_NavigateWithRetry [of f d "BaseURL cfg @ login_path" 3 "enter FnPerformLogin w"]
    by (simp add: nav n_def)
  obtain err r w2 where loc: "run d None Location (time_Sleep (2 * Second) w1) = (err, r, w2)"
    by (metis prod_cases3)
  have w2: "entries f w2 = n"
    using entries_run [of f d None Location "time_Sleep (2 * Second) w1"] w1 by (simp add: loc)
  obtain e3 w3 where wait: "WaitForElement d ''input[type='text']'' (10 * Second) w2 = (e3, w3)"
    by (metis prod.exhaust)
  have w3: "entries f w3 = n"
    using entries_WaitForElement [of f d "''input[type='text']''" "10 * Second" w2] w2
    by (simp add: wait)
  obtain e4 w4 where ty1: "browser_Type d ''input[type='text']'' (Username cfg) w3 = (e4, w4)"
    by (metis prod.exhaust)
  have w4: "entries f w4 = n"
    using entries_browser_Type [of f d "''input[type='text']''" "Username cfg" w3] w3
    by (simp add: ty1)
  obtain e5 w5 where ty2: "browser_Type d ''input[type='password']'' (Password cfg)
      (time_Sleep (500 * Millisecond) w4) = (e5, w5)"
    by (metis prod.exhaust)
  have w5: "entries f w5 = n"
    using entries_browser_Type [of f d "''input[type='password']''" "Password cfg"
        "time_Sleep (500 * Millisecond) w4"] w4
    by (simp add: ty2)
  obtain e6 w6 where cl: "browser_Click d ''button[type='submit']''
      (time_Sleep (500 * Millisecond) w5) = (e6, w6)"
    by (metis prod.exhaust)
  have w6: "entries f w6 = n"
    using entries_browser_Click [of f d "''button[type='submit']''"
        "time_Sleep (500 * Millisecond) w5"] w5
    by (simp add: cl)
  obtain err2 r2 w7 where loc2: "run d None Location (time_Sleep (5 * Second) w6) = (err2, r2, w7)"
    by (metis prod_cases3)
  have w7: "entries f w7 = n"
    using entries_run [of f d None Location "time_Sleep (5 * Second) w6"] w6 by (simp add: loc2)
  have "entries f (snd (snd (PerformLogin cfg d m w))) = n"
    unfolding PerformLogin_def nav
    using f w1 w2 w3 w4 w5 w6 w7
    by (simp add: loc wait ty1 ty2 cl loc2 split: option.splits)
  then show ?thesis
    by (simp add: n_def)
qed

text \<open>
  LoadSession panics exactly at a session file whose list holds \<open>null\<close>, under a browser
  that raises no error in the set-cookie action, and Login panics exactly where
  LoadSession does: it has then entered neither ValidateSession nor a login strategy.
\<close>

lemma LoadSession_panics_iff:
  "fst (LoadSession d m w) = Panic \<longleftrightarrow>
     (\<exists>cs. session_file w = Stored cs \<and> None \<in> set cs \<and> failure (d (calls w)) = None)"
  by (simp add: LoadSession_def run_def enter_def Let_def split: file_state.splits)

lemma Login_panics_iff:
  "fst (Login cfg d m w) = Panic \<longleftrightarrow> fst (LoadSession d m (enter FnLogin w)) = Panic"
proof -
  obtain res m1 w1 where load: "LoadSession d m (enter FnLogin w) = (res, m1, w1)"
    by (metis prod_cases3)
  show ?thesis
    by (cases res) (simp_all add: Login_def load returns_def split: prod.splits)
qed

lemma Login_panic_enters_nothing:
  assumes "fst (Login cfg d m w) = Panic" and "f \<noteq> FnLogin"
  shows "entries f (snd (snd (Login cfg d m w))) =
           entries f w + (if f = FnLoadSession then 1 else 0)"
proof -
  obtain res m1 w1 where load: "LoadSession d m (enter FnLogin w) = (res, m1, w1)"
    by (metis prod_cases3)
  have panic: "res = Panic"
    using assms(1) Login_panics_iff [of cfg d m w] by (simp add: load)
  have "entries f w1 = entries f (enter FnLogin w) + (if f = FnLoadSession then 1 else 0)"
    using entries_LoadSession [of f d m "enter FnLogin w"] by (simp add: load)
  then show ?thesis
    using assms(2) by (simp add: Login_def load panic entries_enter)
qed

text \<open>
  Where LoadSession returns, Login runs ValidateSession next exactly when LoadSession
  returned true. If both return true, Login returns \<open>nil\<close> with the authenticated flag set
  and has entered neither ManualLogin nor PerformLogin. Otherwise it enters exactly one
  login strategy, once, and returns that strategy's result: ManualLogin when the
  configured username or password is empty, PerformLogin when both are present.
\<close>

lemma Login_strategy_after_load:
  assumes load: "LoadSession d m (enter FnLogin w) = (Return loaded, m1, w1)"
    and validate: "(if loaded then ValidateSession cfg d w1 else (False, w1)) = (valid, w2)"
  shows "entries FnLoadSession w1 = entries FnLoadSession w + 1 \<and>
         entries FnValidateSession w1 = entries FnValidateSession w \<and>
         entries FnValidateSession w2 = entries FnValidateSession w + (if loaded then 1 else 0) \<and>
         (loaded \<and> valid \<longrightarrow>
            Login cfg d m w = (Return None, m1\<lparr>isLoggedIn := True\<rparr>, w2) \<and>
            entries FnManualLogin w2 = entries FnManualLogin w \<and>
            entries FnPerformLogin w2 = entries FnPerformLogin w) \<and>
         (\<not> (loaded \<and> valid) \<and> (Username cfg = [] \<or> Password cfg = []) \<longrightarrow>
            Login cfg d m w = returns (ManualLogin cfg d m1 w2) \<and>
            entries FnManualLogin (snd (snd (Login cfg d m w))) = entries FnManualLogin w + 1 \<and>
            entries FnPerformLogin (snd (snd (Login cfg d m w))) = entries FnPerformLogin w) \<and>
         (\<not> (loaded \<and> valid) \<and> Username cfg \<noteq> [] \<and> Password cfg \<noteq> [] \<longrightarrow>
            Login cfg d m w = returns (PerformLogin cfg d m1 w2) \<and>
            entries FnPerformLogin (snd (snd (Login cfg d m w))) = entries FnPerformLogin w + 1 \<and>
            entries FnManualLogin (snd (snd (Login cfg d m w))) = entries FnManualLogin w)"
  supply [simp] = entries_run entries_time_Sleep entries_enter entries_session_file
    entries_NavigateWithRetry entries_SaveSession entries_LoadSession entries_ValidateSession
    entries_poll_world entries_check_world entries_WaitForElement entries_browser_Type
    entries_browser_Click
proof -
  have e1: "entries f w1 = entries f w + (if f = FnLoadSession then 1 else 0)" if "f \<noteq> FnLogin" for f
    using entries_LoadSession [of f d m "enter FnLogin w"] that by (simp add: load)
  have e2: "entries f w2 = entries f w1 + (if loaded \<and> f = FnValidateSession then 1 else 0)" for f
  proof (cases loaded)
    case True
    with validate have "w2 = snd (ValidateSession cfg d w1)"
      by simp
    with True show ?thesis
      by simp
  next
    case False
    then show ?thesis
      using validate by simp
  qed
  have reuse: "Login cfg d m w = (Return None, m1\<lparr>isLoggedIn := True\<rparr>, w2)" if "loaded \<and> valid"
    using that validate by (simp add: Login_def load)
  have manual: "Login cfg d m w = returns (ManualLogin cfg d m1 w2)"
    if "\<not> (loaded \<and> valid) \<and> (Username cfg = [] \<or> Password cfg = [])"
    using that validate by (auto simp: Login_def load split: if_splits)
  have auto: "Login cfg d m w = returns (PerformLogin cfg d m1 w2)"
    if "\<not> (loaded \<and> valid) \<and> Username cfg \<noteq> [] \<and> Password cfg \<noteq> []"
    using that validate by (auto simp: Login_def load split: if_splits)
  show ?thesis
    using reuse manual auto
    by (simp add: e1 e2 returns_def entries_ManualLogin entries_PerformLogin)
qed

text \<open>
  Login at a saved session that the browser accepts (session reuse), and at a missing
  session file without credentials (fallback to the manual login).
\<close>

lemma Login_strategy_examples:
  "LoadSession returning_user NewManager (enter FnLogin saved_world) =
     (Return True, NewManager\<lparr>cookies := [session_cookie]\<rparr>, session_loaded) \<and>
   (if True then ValidateSession shop_config returning_user session_loaded
    else (False, session_loaded)) = (True, session_validated) \<and>
   Login shop_config returning_user NewManager saved_world =
     (Return None, \<lparr>cookies = [session_cookie], isLoggedIn = True\<rparr>, session_validated) \<and>
   entries FnManualLogin session_validated = 0 \<and>
   entries FnPerformLogin session_validated = 0 \<and>
   LoadSession (login_after 2) NewManager (enter FnLogin start_world) =
     (Return False, NewManager, no_session) \<and>
   (if False then ValidateSession shop_config (login_after 2) no_session
    else (False, no_session)) = (False, no_session) \<and>
   Login shop_config (login_after 2) NewManager start_world =
     returns (ManualLogin shop_config (login_after 2) NewManager no_session) \<and>
   entries FnManualLogin (snd (snd (Login shop_config (login_after 2) NewManager start_world))) = 1 \<and>
   entries FnPerformLogin (snd (snd (Login shop_config (login_after 2) NewManager start_world))) = 0"
proof -
  have load: "LoadSession returning_user NewManager (enter FnLogin saved_world) =
     (Return True, NewManager\<lparr>cookies := [session_cookie]\<rparr>, session_loaded)"
    by (simp add: LoadSession_def run_def enter_def saved_world_def start_world_def
        session_loaded_def returning_user_def blank_def Let_def)
  have nav: "NavigateWithRetry returning_user (BaseURL shop_config) 3
       (enter FnValidateSession session_loaded) =
     (None, (enter FnValidateSession session_loaded)
              \<lparr>now := 0, calls := 2,
                trace := trace (enter FnValidateSession session_loaded)
                           @ [Ran (Navigate (BaseURL shop_config))]\<rparr>)"
    by (subst NavigateWithRetry_first_try)
       (simp_all add: returning_user_def blank_def enter_def session_loaded_def Second_def)
  have validate: "(if True then ValidateSession shop_config returning_user session_loaded
    else (False, session_loaded)) = (True, session_validated)"
    unfolding ValidateSession_def nav
    by (simp add: run_def time_Sleep_def enter_def session_loaded_def
        session_validated_def returning_user_def blank_def contains_home_url Second_def Let_def)
  have load': "LoadSession (login_after 2) NewManager (enter FnLogin start_world) =
     (Return False, NewManager, no_session)"
    by (simp add: LoadSession_def enter_def start_world_def no_session_def)
  have validate': "(if False then ValidateSession shop_config (login_after 2) no_session
    else (False, no_session)) = (False, no_session)"
    by simp
  have cfg: "Username shop_config = []"
    by (simp add: shop_config_def)
  have zero: "entries f start_world = 0" "entries f saved_world = 0" for f
    by (simp_all add: entries_def start_world_def saved_world_def)
  note reuse = Login_strategy_after_load [OF load validate]
  note fallback = Login_strategy_after_load [OF load' validate']
  have a: "Login shop_config returning_user NewManager saved_world =
     (Return None, \<lparr>cookies = [session_cookie], isLoggedIn = True\<rparr>, session_validated)"
    using reuse by (simp add: NewManager_def)
  have b: "entries FnManualLogin session_validated = 0 \<and>
           entries FnPerformLogin session_validated = 0"
    using reuse by (simp add: zero)
  have c: "Login shop_config (login_after 2) NewManager start_world =
             returns (ManualLogin shop_config (login_after 2) NewManager no_session) \<and>
           entries FnManualLogin
             (snd (snd (Login shop_config (login_after 2) NewManager start_world))) =
             entries FnManualLogin start_world + 1 \<and>
           entries FnPerformLogin
             (snd (snd (Login shop_config (login_after 2) NewManager start_world))) =
             entries FnPerformLogin start_world"
    using fallback cfg by blast
  have d: "entries FnManualLogin
             (snd (snd (Login shop_config (login_after 2) NewManager start_world))) = 1 \<and>
           entries FnPerformLogin
             (snd (snd (Login shop_config (login_after 2) NewManager start_world))) = 0"
    using conjunct2 [OF c] by (simp add: zero)
  from load validate a b load' validate' c d show ?thesis
    by blast
qed

text \<open>
  C3. The property fails at a session file that reads \<open>[null]\<close>, under a browser that
  accepts every call and with no credentials configured: LoadSession dereferences the nil
  cookie in its set-cookie loop and panics, so that Login does not return and has entered
  neither ValidateSession nor ManualLogin nor PerformLogin, where the property asks for
  exactly one login strategy.
\<close>

theorem Login_panics_on_null_cookie:
  "Login shop_config returning_user NewManager null_session =
     (Panic, NewManager, null_session_loaded) \<and>
   entries FnLoadSession null_session_loaded = 1 \<and>
   entries FnValidateSession null_session_loaded = 0 \<and>
   entries FnManualLogin null_session_loaded = 0 \<and>
   entries FnPerformLogin null_session_loaded = 0"
  by (simp add: Login_def LoadSession_def run_def enter_def Let_def null_session_def
      null_session_loaded_def start_world_def returning_user_def blank_def entries_def)

section \<open>The authenticated flag and the cookie list\<close>

lemma calls_run: "calls (snd (snd (run d t a w))) = Suc (calls w)"
  by (simp add: run_def Let_def)

lemma calls_time_Sleep: "calls (time_Sleep dur w) = calls w"
  by (simp add: time_Sleep_def)

lemma calls_enter: "calls (enter g w) = calls w"
  by (simp add: enter_def)

lemma calls_NavigateWithRetry_from:
  "calls w \<le> calls (snd (NavigateWithRetry_from d url maxRetries i err w))"
  supply [simp] = calls_run calls_time_Sleep calls_enter
proof (induction d url maxRetries i err w rule: NavigateWithRetry_from.induct)
  case (1 d url maxRetries i err w)
  show ?case
  proof (cases "i < maxRetries")
    case False
    then show ?thesis
      by (simp add: NavigateWithRetry_from_exhausted)
  next
    case True
    obtain err' r w1 where run: "run d (Some (30 * Second)) (Navigate url) w = (err', r, w1)"
      by (metis prod_cases3)
    have w1: "calls w1 = Suc (calls w)"
      using calls_run [of d "Some (30 * Second)" "Navigate url" w] by (simp add: run)
    show ?thesis
    proof (cases err')
      case None
      then show ?thesis
        using True run w1 by (simp add: NavigateWithRetry_from_ok)
    next
      case (Some e)
      have "calls (if i < maxRetries - 1
                   then time_Sleep (wrap64 (wrap64 (i + 1) * Second)) w1 else w1)
            \<le> calls (snd (NavigateWithRetry_from d url maxRetries (i + 1) err'
              (if i < maxRetries - 1 then time_Sleep (wrap64 (wrap64 (i + 1) * Second)) w1 else w1)))"
        using "1.IH" [OF True, of err' "(r, w1)" r w1] run Some by simp
      then show ?thesis
        using True run w1 Some by (auto simp add: NavigateWithRetry_from_retry split: if_splits)
    qed
  qed
qed

lemma calls_NavigateWithRetry:
  "NavigateWithRetry d url maxRetries w = (e, w1) \<Longrightarrow> calls w \<le> calls w1"
  using calls_NavigateWithRetry_from [of w d url maxRetries 0 None]
  by (simp add: NavigateWithRetry_def)

lemma SaveSession_success:
  "SaveSession d m w = (None, m', w') \<Longrightarrow>
   isLoggedIn m' \<and> cookies m' = jar (d (calls w)) \<and> calls w' = calls w + 3 \<and>
   session_file w' = Stored (map Some (cookies m'))"
  by (auto simp: SaveSession_def run_def enter_def Let_def split: option.splits if_splits)

lemma SaveSession_just_captured:
  "SaveSession d m w3 = (None, m', w') \<Longrightarrow> calls w \<le> calls w3 \<Longrightarrow> just_captured d w m' w'"
  using SaveSession_success [of d m w3 m' w'] by (simp add: just_captured_def)

lemma loop_success:
  "ManualLogin_loop d st m w = (None, m', w') \<Longrightarrow>
   \<exists>w3. calls w \<le> calls w3 \<and> SaveSession d (m\<lparr>isLoggedIn := True\<rparr>) w3 = (None, m', w')"
proof (induction "nat (maxWaitTime + 1 - (now w - st))" arbitrary: w rule: less_induct)
  case less
  have ci: "0 < checkInterval"
    by (simp add: checkInterval_def Second_def)
  show ?case
  proof (cases "now w - st > maxWaitTime")
    case True
    with less.prems show ?thesis
      by (simp add: loop_timeout)
  next
    case False
    show ?thesis
    proof (cases "detects d (calls w)")
      case True
      with False less.prems
      have "SaveSession d (m\<lparr>isLoggedIn := True\<rparr>) (check_world d (poll_world d w)) = (None, m', w')"
        by (simp add: loop_detected)
      moreover have "calls w \<le> calls (check_world d (poll_world d w))"
        by (simp add: check_world_eq poll_world_eq)
      ultimately show ?thesis by blast
    next
      case nd: False
      define w2 where "w2 = (if idle d (calls w) then poll_world d w
                             else check_world d (poll_world d w))"
      have step: "ManualLogin_loop d st m w = ManualLogin_loop d st m w2"
        using False nd by (simp add: w2_def loop_idle loop_unconfirmed)
      have "now w + checkInterval \<le> now w2"
        by (simp add: w2_def poll_world_eq check_world_eq)
      then have "nat (maxWaitTime + 1 - (now w2 - st)) < nat (maxWaitTime + 1 - (now w - st))"
        using False ci by simp
      moreover have "ManualLogin_loop d st m w2 = (None, m', w')"
        using less.prems step by simp
      ultimately obtain w3 where
        "calls w2 \<le> calls w3" "SaveSession d (m\<lparr>isLoggedIn := True\<rparr>) w3 = (None, m', w')"
        using less.hyps [of w2] by blast
      moreover have "calls w \<le> calls w2"
        by (simp add: w2_def poll_world_eq check_world_eq)
      ultimately show ?thesis
        by (intro exI [of _ w3]) simp
    qed
  qed
qed

lemma ManualLogin_success:
  assumes "ManualLogin cfg d m w = (None, m', w')"
  shows "just_captured d w m' w'"
  supply [simp] = calls_run calls_time_Sleep calls_enter
proof -
  obtain e w1 where nav:
    "NavigateWithRetry d (BaseURL cfg @ login_path) 3 (enter FnManualLogin w) = (e, w1)"
    by (metis prod.exhaust)
  have c1: "calls w \<le> calls w1"
    using calls_NavigateWithRetry [OF nav] by simp
  from assms have "e = None" and "ManualLogin_loop d (now w1) m w1 = (None, m', w')"
    by (cases e; simp add: ManualLogin_def nav)+
  then obtain w3 where "calls w1 \<le> calls w3"
    "SaveSession d (m\<lparr>isLoggedIn := True\<rparr>) w3 = (None, m', w')"
    using loop_success by blast
  with c1 show ?thesis
    by (intro SaveSession_just_captured [of d _ w3]) simp_all
qed

lemma calls_WaitForElement: "calls (snd (WaitForElement d sel t w)) = Suc (calls w)"
  by (simp add: WaitForElement_def run_def Let_def)

lemma calls_browser_Type: "calls (snd (browser_Type d sel txt w)) = Suc (calls w)"
  by (simp add: browser_Type_def run_def Let_def)

lemma calls_browser_Click: "calls (snd (browser_Click d sel w)) = Suc (calls w)"
  by (simp add: browser_Click_def run_def Let_def)

lemma PerformLogin_success:
  assumes ok: "PerformLogin cfg d m w = (None, m', w')"
  shows "just_captured d w m' w'"
  supply [simp] = calls_run calls_time_Sleep calls_enter calls_WaitForElement calls_browser_Type
    calls_browser_Click
proof -
  obtain e w1 where nav:
    "NavigateWithRetry d (BaseURL cfg @ login_path) 3 (enter FnPerformLogin w) = (e, w1)"
    by (metis prod.exhaust)
  have w1: "calls w \<le> calls w1"
    using calls_NavigateWithRetry [OF nav] by simp
  obtain err r w2 where loc: "run d None Location (time_Sleep (2 * Second) w1) = (err, r, w2)"
    by (metis prod_cases3)
  have w2: "calls w \<le> calls w2"
    using calls_run [of d None Location "time_Sleep (2 * Second) w1"] w1 by (simp add: loc)
  obtain e3 w3 where wait: "WaitForElement d ''input[type='text']'' (10 * Second) w2 = (e3, w3)"
    by (metis prod.exhaust)
  have w3: "calls w \<le> calls w3"
    using calls_WaitForElement [of d "''input[type='text']''" "10 * Second" w2] w2
    by (simp add: wait)
  obtain e4 w4 where ty1: "browser_Type d ''input[type='text']'' (Username cfg) w3 = (e4, w4)"
    by (metis prod.exhaust)
  have w4: "calls w \<le> calls w4"
    using calls_browser_Type [of d "''input[type='text']''" "Username cfg" w3] w3
    by (simp add: ty1)
  obtain e5 w5 where ty2: "browser_Type d ''input[type='password']'' (Password cfg)
      (time_Sleep (500 * Millisecond) w4) = (e5, w5)"
    by (metis prod.exhaust)
  have w5: "calls w \<le> calls w5"
    using calls_browser_Type [of d "''input[type='password']''" "Password cfg"
        "time_Sleep (500 * Millisecond) w4"] w4
    by (simp add: ty2)
  obtain e6 w6 where cl: "browser_Click d ''button[type='submit']''
      (time_Sleep (500 * Millisecond) w5) = (e6, w6)"
    by (metis prod.exhaust)
  have w6: "calls w \<le> calls w6"
    using calls_browser_Click [of d "''button[type='submit']''"
        "time_Sleep (500 * Millisecond) w5"] w5
    by (simp add: cl)
  obtain err2 r2 w7 where loc2: "run d None Location (time_Sleep (5 * Second) w6) = (err2, r2, w7)"
    by (metis prod_cases3)
  have w7: "calls w \<le> calls w7"
    using calls_run [of d None Location "time_Sleep (5 * Second) w6"] w6 by (simp add: loc2)
  have "SaveSession d m w2 = (None, m', w') \<or> SaveSession d m w7 = (None, m', w')"
    using ok unfolding PerformLogin_def nav
    by (simp add: loc wait ty1 ty2 cl loc2 split: option.splits if_splits)
  with w2 w7 show ?thesis
    using SaveSession_just_captured by blast
qed

lemma returns_eq: "returns p = (Return r, s) \<longleftrightarrow> p = (r, s)"
  by (cases p) (simp add: returns_def)

lemma map_Some_the: "None \<notin> set cs \<Longrightarrow> map (Some \<circ> the) cs = cs"
  by (induction cs) auto

lemma Login_success:
  assumes ok: "Login cfg d m w = (Return None, m', w')"
  shows "just_captured d w m' w' \<or> just_validated cfg d m w m' w'"
  supply [simp] = calls_run calls_time_Sleep calls_enter calls_WaitForElement calls_browser_Type
    calls_browser_Click
proof -
  obtain res m1 w1 where load0: "LoadSession d m (enter FnLogin w) = (res, m1, w1)"
    by (metis prod_cases3)
  have "res \<noteq> Panic"
    using ok by (auto simp: Login_def load0)
  then obtain loaded where load: "LoadSession d m (enter FnLogin w) = (Return loaded, m1, w1)"
    using load0 by (cases res) simp_all
  obtain valid w2 where validate:
    "(if loaded then ValidateSession cfg d w1 else (False, w1)) = (valid, w2)"
    by (metis prod.exhaust)
  have c1: "calls w \<le> calls w1"
    using load by (auto simp: LoadSession_def run_def enter_def Let_def
        split: file_state.splits if_splits)
  have c2: "calls w \<le> calls w2"
  proof (cases loaded)
    case True
    obtain e wn where nav:
      "NavigateWithRetry d (BaseURL cfg) 3 (enter FnValidateSession w1) = (e, wn)"
      by (metis prod.exhaust)
    have "calls w1 \<le> calls wn"
      using calls_NavigateWithRetry [OF nav] by simp
    moreover have "calls wn \<le> calls w2"
      using validate True
      by (cases e) (auto simp: ValidateSession_def nav run_def time_Sleep_def Let_def
          split: if_splits)
    ultimately show ?thesis
      using c1 by simp
  next
    case False
    with validate c1 show ?thesis by simp
  qed
  show ?thesis
  proof (cases "loaded \<and> valid")
    case True
    then have res: "m' = m1\<lparr>isLoggedIn := True\<rparr>" "w' = w2"
      using ok validate by (simp_all add: Login_def load)
    have stored: "session_file w = Stored (map Some (cookies m1)) \<and>
                  m1 = m\<lparr>cookies := cookies m1\<rparr>"
      using load True
      by (auto simp: LoadSession_def run_def enter_def Let_def map_Some_the
          split: file_state.splits if_splits)
    have "just_validated cfg d m w m' w'"
      using True validate stored res by (simp add: just_validated_def load)
    then show ?thesis ..
  next
    case False
    then have "ManualLogin cfg d m1 w2 = (None, m', w') \<or> PerformLogin cfg d m1 w2 = (None, m', w')"
      using ok validate by (auto simp: Login_def load returns_eq split: if_splits)
    then have "just_captured d w2 m' w'"
      using ManualLogin_success PerformLogin_success by blast
    with c2 have "just_captured d w m' w'"
      by (simp add: just_captured_def)
    then show ?thesis ..
  qed
qed

text \<open>
  C8 (amended). Whenever SaveSession, ManualLogin or PerformLogin returns success, the
  authenticated flag is set and the cookie list in memory was just captured from the
  driver; whenever Login returns success, the list was just captured or was just loaded
  and validated against the live target. LoadSession leaves the flag as it was
  (ValidateSession has no access to the manager), and a successful Logout clears the flag
  and the list. Nothing requires the list to be non-empty.
\<close>

theorem authenticated_with_fresh_cookies:
  "(SaveSession d m w = (None, m', w') \<longrightarrow> just_captured d w m' w') \<and>
   (ManualLogin cfg d m w = (None, m', w') \<longrightarrow> just_captured d w m' w') \<and>
   (PerformLogin cfg d m w = (None, m', w') \<longrightarrow> just_captured d w m' w') \<and>
   (Login cfg d m w = (Return None, m', w') \<longrightarrow>
      just_captured d w m' w' \<or> just_validated cfg d m w m' w') \<and>
   isLoggedIn (fst (snd (LoadSession d m w))) = isLoggedIn m \<and>
   (Logout d m w = (None, m', w') \<longrightarrow> \<not> isLoggedIn m' \<and> cookies m' = [])"
proof (intro conjI impI)
  assume "SaveSession d m w = (None, m', w')"
  then show "just_captured d w m' w'"
    by (rule SaveSession_just_captured) simp
next
  assume "ManualLogin cfg d m w = (None, m', w')"
  then show "just_captured d w m' w'"
    by (rule ManualLogin_success)
next
  assume "PerformLogin cfg d m w = (None, m', w')"
  then show "just_captured d w m' w'"
    by (rule PerformLogin_success)
next
  assume "Login cfg d m w = (Return None, m', w')"
  then show "just_captured d w m' w' \<or> just_validated cfg d m w m' w'"
    by (rule Login_success)
next
  show "isLoggedIn (fst (snd (LoadSession d m w))) = isLoggedIn m"
    by (simp add: LoadSession_def run_def Let_def split: file_state.splits)
next
  assume "Logout d m w = (None, m', w')"
  then show "\<not> isLoggedIn m'"
    by (auto simp: Logout_def run_def Let_def split: option.splits if_splits)
next
  assume "Logout d m w = (None, m', w')"
  then show "cookies m' = []"
    by (auto simp: Logout_def run_def Let_def split: option.splits if_splits)
qed

lemma SaveSession_returning_user:
  "SaveSession returning_user NewManager start_world =
     (None, \<lparr>cookies = [session_cookie], isLoggedIn = True\<rparr>,
      \<lparr>now = 0, calls = 3,
       trace = [Entered FnSaveSession, Ran GetCookies, Ran MarshalIndent, Ran WriteFile],
       session_file = Stored [Some session_cookie]\<rparr>)"
  by (subst SaveSession_ok)
     (simp_all add: returning_user_def blank_def start_world_def NewManager_def)

text \<open>C8 (amended) at a SaveSession that captures one session cookie.\<close>

theorem authenticated_with_fresh_cookies_witness:
  "SaveSession returning_user NewManager start_world =
     (None, \<lparr>cookies = [session_cookie], isLoggedIn = True\<rparr>,
      \<lparr>now = 0, calls = 3,
       trace = [Entered FnSaveSession, Ran GetCookies, Ran MarshalIndent, Ran WriteFile],
       session_file = Stored [Some session_cookie]\<rparr>) \<and>
   just_captured returning_user start_world \<lparr>cookies = [session_cookie], isLoggedIn = True\<rparr>
      \<lparr>now = 0, calls = 3,
       trace = [Entered FnSaveSession, Ran GetCookies, Ran MarshalIndent, Ran WriteFile],
       session_file = Stored [Some session_cookie]\<rparr>"
  using authenticated_with_fresh_cookies
    [of returning_user NewManager start_world "\<lparr>cookies = [session_cookie], isLoggedIn = True\<rparr>"
       "\<lparr>now = 0, calls = 3,
         trace = [Entered FnSaveSession, Ran GetCookies, Ran MarshalIndent, Ran WriteFile],
         session_file = Stored [Some session_cookie]\<rparr>"]
    SaveSession_returning_user
  by blast

text \<open>
  C8 as stated fails at a browser without cookies: SaveSession succeeds and sets the
  authenticated flag while the cookie list is empty.
\<close>

theorem authenticated_with_no_cookies_counterexample:
  "SaveSession empty_browser NewManager start_world =
     (None, \<lparr>cookies = [], isLoggedIn = True\<rparr>,
      \<lparr>now = 0, calls = 3,
       trace = [Entered FnSaveSession, Ran GetCookies, Ran MarshalIndent, Ran WriteFile],
       session_file = Stored []\<rparr>)"
  by (subst SaveSession_ok)
     (simp_all add: empty_browser_def blank_def start_world_def NewManager_def)

section \<open>The stream monitor\<close>

lemma entries_ExecutePurchase:
  "entries f (snd (ExecutePurchase d sel w)) =
     entries f w + (if f = FnExecutePurchase then 1 else 0)"
  by (simp add: ExecutePurchase_def AddToCart_def run_def enter_def time_Sleep_def entries_def
      Let_def split: option.splits)

lemma run_Evaluate:
  "run d None (Evaluate s) w =
     (failure (d (calls w)), d (calls w),
      w\<lparr>now := now w + int (latency (d (calls w))), calls := Suc (calls w),
        trace := trace w @ [Ran (Evaluate s)]\<rparr>)"
  by (simp add: run_def Let_def)

lemma entries_checkProductAvailability_from:
  "entries FnExecutePurchase (snd (checkProductAvailability_from d sid sels w)) =
     entries FnExecutePurchase w + (if first_available d sels (calls w) = None then 0 else 1)"
proof (induction sels arbitrary: w)
  case Nil
  show ?case by simp
next
  case (Cons sel rest)
  let ?w1 = "w\<lparr>now := now w + int (latency (d (calls w))), calls := Suc (calls w),
               trace := trace w @ [Ran (Evaluate (QuerySelector sel))]\<rparr>"
  have e1: "entries FnExecutePurchase ?w1 = entries FnExecutePurchase w"
    by (simp add: entries_def)
  show ?case
  proof (cases "failure (d (calls w)) = None \<and> matches (d (calls w)) sel")
    case True
    obtain r w2 where ex: "ExecutePurchase d sel ?w1 = (r, w2)"
      by (metis prod.exhaust)
    have "entries FnExecutePurchase w2 = entries FnExecutePurchase w + 1"
      using entries_ExecutePurchase [of FnExecutePurchase d sel ?w1] e1 by (simp add: ex)
    with True show ?thesis
      by (cases r) (simp_all add: run_Evaluate ex)
  next
    case False
    have "entries FnExecutePurchase (snd (checkProductAvailability_from d sid rest ?w1)) =
          entries FnExecutePurchase ?w1 +
          (if first_available d rest (calls ?w1) = None then 0 else 1)"
      by (rule Cons.IH)
    with False e1 show ?thesis
      by (auto simp: run_Evaluate)
  qed
qed

lemma monitor_loop_ticks:
  "fst (monitor_loop d sid (replicate n TickerC) w) = Running \<and>
   entries FnExecutePurchase (snd (monitor_loop d sid (replicate n TickerC) w)) =
     entries FnExecutePurchase w + detections d sid n w"
proof (induction n arbitrary: w)
  case 0
  show ?case by simp
next
  case (Suc n)
  show ?case
    using Suc [of "snd (checkProductAvailability d sid w)"]
      entries_checkProductAvailability_from [of d sid selectors w]
    by (simp add: checkProductAvailability_def)
qed

lemma checkProductAvailability_from_winner:
  "first_available d sels (calls w) = Some sel \<Longrightarrow>
   \<exists>w1. checkProductAvailability_from d sid sels w = ExecutePurchase d sel w1"
proof (induction sels arbitrary: w)
  case Nil
  then show ?case by simp
next
  case (Cons s rest)
  let ?w1 = "w\<lparr>now := now w + int (latency (d (calls w))), calls := Suc (calls w),
               trace := trace w @ [Ran (Evaluate (QuerySelector s))]\<rparr>"
  show ?case
  proof (cases "failure (d (calls w)) = None \<and> matches (d (calls w)) s")
    case True
    with Cons.prems have "sel = s" by simp
    moreover have "checkProductAvailability_from d sid (s # rest) w = ExecutePurchase d s ?w1"
      using True by (cases "ExecutePurchase d s ?w1") (auto simp: run_Evaluate split: option.splits)
    ultimately show ?thesis by blast
  next
    case False
    with Cons.prems have "first_available d rest (calls ?w1) = Some sel"
      by auto
    then obtain w1 where "checkProductAvailability_from d sid rest ?w1 = ExecutePurchase d sel w1"
      using Cons.IH by blast
    moreover have "checkProductAvailability_from d sid (s # rest) w =
                   checkProductAvailability_from d sid rest ?w1"
      using False by (auto simp: run_Evaluate)
    ultimately show ?thesis by auto
  qed
qed

text \<open>
  C6. In every stream task, a tick is followed by the rest of the loop whatever
  checkProductAvailability returned, so a failed purchase is not the task's error. A tick
  that detects a purchase-enabling selector invokes the Purchase Executor with the winning
  selector. After any number of ticks, under any driver, the task is still running, and
  the Purchase Executor has been invoked once for every tick that detected a selector; in
  particular a task that detects one on two ticks has invoked it twice. The loop is the
  one a task runs after its navigation has succeeded.
\<close>

theorem monitor_returns_to_polling:
  "monitor_loop d sid (TickerC # wakes) w =
     monitor_loop d sid wakes (snd (checkProductAvailability d sid w)) \<and>
   (first_available d selectors (calls w) = Some sel \<longrightarrow>
      (\<exists>w1. checkProductAvailability d sid w = ExecutePurchase d sel w1)) \<and>
   fst (monitor_loop d sid (replicate n TickerC) w) = Running \<and>
   entries FnExecutePurchase (snd (monitor_loop d sid (replicate n TickerC) w)) =
     entries FnExecutePurchase w + detections d sid n w \<and>
   (first_available d selectors (calls w) \<noteq> None \<and>
    first_available d selectors (calls (snd (checkProductAvailability d sid w))) \<noteq> None \<longrightarrow>
      fst (monitor_loop d sid [TickerC, TickerC] w) = Running \<and>
      entries FnExecutePurchase (snd (monitor_loop d sid [TickerC, TickerC] w)) =
        entries FnExecutePurchase w + 2) \<and>
   (NavigateWithRetry d url 3 w0 = (None, w) \<and> 0 < GetCheckInterval cfg \<longrightarrow>
      monitorStream cfg d url sid (replicate n TickerC) w0 =
        monitor_loop d sid (replicate n TickerC) w)"
proof -
  have two: "[TickerC, TickerC] = replicate 2 TickerC"
    by (simp add: numeral_2_eq_2)
  have "fst (monitor_loop d sid [TickerC, TickerC] w) = Running \<and>
        entries FnExecutePurchase (snd (monitor_loop d sid [TickerC, TickerC] w)) =
          entries FnExecutePurchase w + detections d sid 2 w"
    unfolding two by (rule monitor_loop_ticks)
  moreover have "detections d sid 2 w = 2"
    if "first_available d selectors (calls w) \<noteq> None \<and>
        first_available d selectors (calls (snd (checkProductAvailability d sid w))) \<noteq> None"
    using that by (simp add: numeral_2_eq_2)
  moreover have "\<exists>w1. checkProductAvailability d sid w = ExecutePurchase d sel w1"
    if "first_available d selectors (calls w) = Some sel"
    using that unfolding checkProductAvailability_def
    by (rule checkProductAvailability_from_winner)
  moreover have "monitorStream cfg d url sid (replicate n TickerC) w0 =
        monitor_loop d sid (replicate n TickerC) w"
    if "NavigateWithRetry d url 3 w0 = (None, w) \<and> 0 < GetCheckInterval cfg"
    using that by (simp add: monitorStream_def)
  ultimately show ?thesis
    using monitor_loop_ticks [of d sid n w] by simp
qed

lemma first_tick_flash_sale:
  "checkProductAvailability flash_sale 1 start_world =
     (Some (Errorf ''failed to add to cart: %w'' []
        (Some (Errorf ''failed to click add to cart: %w'' []
           (Some (Failure ''driver call failed''))))),
      \<lparr>now = 0, calls = 6,
       trace = [Ran (Evaluate (QuerySelector ''button[class*='add-to-cart']'')),
                Ran (Evaluate (QuerySelector ''button[class*='buy-now']'')),
                Ran (Evaluate (QuerySelector ''button[class*='add-cart']'')),
                Ran (Evaluate (QuerySelector ''div[class*='shop-bag'] button'')),
                Ran (Evaluate (QuerySelector ''.shopee-button-solid'')),
                Entered FnExecutePurchase, Ran (Click ''.shopee-button-solid'')],
       session_file = Missing\<rparr>)"
  by (simp add: checkProductAvailability_def selectors_def run_Evaluate ExecutePurchase_def
      AddToCart_def run_def enter_def flash_sale_def blank_def start_world_def Second_def Let_def)

text \<open>
  C6 at a page whose buy button is found on two ticks, where the first purchase
  fails and the second succeeds.
\<close>

theorem monitor_returns_to_polling_witness:
  "first_available flash_sale selectors (calls start_world) \<noteq> None \<and>
   first_available flash_sale selectors
     (calls (snd (checkProductAvailability flash_sale 1 start_world))) \<noteq> None \<and>
   fst (checkProductAvailability flash_sale 1 start_world) \<noteq> None \<and>
   fst (monitor_loop flash_sale 1 [TickerC, TickerC] start_world) = Running \<and>
   entries FnExecutePurchase (snd (monitor_loop flash_sale 1 [TickerC, TickerC] start_world)) = 2"
proof -
  have one: "first_available flash_sale selectors (calls start_world) \<noteq> None"
    by (simp add: selectors_def flash_sale_def blank_def start_world_def)
  have two: "first_available flash_sale selectors
     (calls (snd (checkProductAvailability flash_sale 1 start_world))) \<noteq> None"
    by (simp add: first_tick_flash_sale selectors_def flash_sale_def blank_def)
  have failed: "fst (checkProductAvailability flash_sale 1 start_world) \<noteq> None"
    by (simp add: first_tick_flash_sale)
  have zero: "entries FnExecutePurchase start_world = 0"
    by (simp add: entries_def start_world_def)
  have "fst (monitor_loop flash_sale 1 [TickerC, TickerC] start_world) = Running \<and>
        entries FnExecutePurchase (snd (monitor_loop flash_sale 1 [TickerC, TickerC] start_world)) =
          entries FnExecutePurchase start_world + 2"
    using monitor_returns_to_polling [where d = flash_sale and sid = 1 and w = start_world]
      one two
    by blast
  with one two failed zero show ?thesis
    by simp
qed



lemma first_error_Some:
  "rs \<noteq> [] \<Longrightarrow> \<forall>p\<in>set rs. snd p \<noteq> None \<Longrightarrow> first_error rs \<noteq> None"
proof (induction rs rule: first_error.induct)
  case 1
  then show ?case by simp
next
  case (2 t rest)
  then show ?case by simp
next
  case (3 t e rest)
  then show ?case by (simp split: option.splits)
qed

lemma first_error_member:
  "first_error rs = Some (t, e) \<Longrightarrow> (t, Some e) \<in> set rs"
proof (induction rs arbitrary: t e rule: first_error.induct)
  case 1
  then show ?case by simp
next
  case (2 t' rest)
  then show ?case by simp
next
  case (3 t' e' rest)
  then show ?case
    by (auto split: option.splits if_splits)
qed

lemma length_task_outcomes:
  "length (task_outcomes cfg env w) = length (LivestreamURLs cfg)"
  by (simp add: task_outcomes_def)






lemma monitor_loop_after_ticks:
  "monitor_loop d sid (replicate n TickerC @ rest) w =
     monitor_loop d sid rest (snd (monitor_loop d sid (replicate n TickerC) w))"
  by (induction n arbitrary: w) simp_all

text \<open>
  C7 (amended). A task whose \<open>select\<close> receives the closing of \<open>Done\<close> returns at once
  with the context's error, in the world the ticks before it left: it makes no further
  driver call, whatever would have followed. This exit is not told apart from a failure:
  when every task of a non-empty stream list ends by plain cancellation, Start returns
  the monitoring error that wraps \<open>Canceled\<close>.
\<close>

theorem cancellation_is_reported:
  "monitor_loop d sid (CtxDone c # wakes) w = (Returned (Some (ctx_Err c)), w) \<and>
   (NavigateWithRetry d url 3 w = (None, w1) \<and> 0 < GetCheckInterval cfg \<longrightarrow>
      monitorStream cfg d url sid (replicate n TickerC @ CtxDone c # wakes) w =
        (Returned (Some (ctx_Err c)), snd (monitor_loop d sid (replicate n TickerC) w1))) \<and>
   (LivestreamURLs cfg \<noteq> [] \<and>
    (\<forall>i<length (LivestreamURLs cfg).
       fst (monitorStream cfg (fst (env i)) (LivestreamURLs cfg ! i) (int i + 1) (snd (env i)) w)
         = Returned (Some Canceled)) \<longrightarrow>
      Start cfg env finished w =
        Returned (Some (Errorf ''monitoring error: %w'' [] (Some Canceled))))"
  supply [simp] = length_task_outcomes
proof (intro conjI impI)
  show "monitor_loop d sid (CtxDone c # wakes) w = (Returned (Some (ctx_Err c)), w)"
    by simp
next
  assume "NavigateWithRetry d url 3 w = (None, w1) \<and> 0 < GetCheckInterval cfg"
  then show "monitorStream cfg d url sid (replicate n TickerC @ CtxDone c # wakes) w =
        (Returned (Some (ctx_Err c)), snd (monitor_loop d sid (replicate n TickerC) w1))"
    by (simp add: monitorStream_def monitor_loop_after_ticks)
next
  assume a: "LivestreamURLs cfg \<noteq> [] \<and>
    (\<forall>i<length (LivestreamURLs cfg).
       fst (monitorStream cfg (fst (env i)) (LivestreamURLs cfg ! i) (int i + 1) (snd (env i)) w)
         = Returned (Some Canceled))"
  let ?outs = "task_outcomes cfg env w"
  let ?rs = "map (\<lambda>i. (finished i, returned (?outs ! i))) [0..<length ?outs]"
  have outs: "?outs ! i = Returned (Some Canceled)" if "i < length (LivestreamURLs cfg)" for i
    using that a by (simp add: task_outcomes_def)
  have all: "\<forall>out\<in>set ?outs. out = Returned (Some Canceled)"
    using outs by (auto simp: in_set_conv_nth)
  then have healthy: "Panicked \<notin> set ?outs" "Running \<notin> set ?outs"
    by auto
  have rs: "\<forall>p\<in>set ?rs. snd p = Some Canceled"
    using outs by auto
  have "?rs \<noteq> []"
    using a by simp
  moreover have "\<forall>p\<in>set ?rs. snd p \<noteq> None"
    using rs by simp
  ultimately obtain t e where fe: "first_error ?rs = Some (t, e)"
    using first_error_Some [of ?rs] by auto
  then have "(t, Some e) \<in> set ?rs"
    by (rule first_error_member)
  with rs have "e = Canceled"
    by fastforce
  with fe healthy show "Start cfg env finished w =
        Returned (Some (Errorf ''monitoring error: %w'' [] (Some Canceled)))"
    by (simp add: Start_def Let_def)
qed

lemma monitorStream_quiet_stream:
  "fst (monitorStream shop_config quiet_stream ''https://live.shopee.co.th/1'' 1
          [TickerC, CtxDone ByCancel] start_world) = Returned (Some Canceled)"
proof -
  have nav: "NavigateWithRetry quiet_stream ''https://live.shopee.co.th/1'' 3 start_world =
      (None, start_world\<lparr>now := now start_world + int (latency (quiet_stream (calls start_world))),
               calls := Suc (calls start_world),
               trace := trace start_world @ [Ran (Navigate ''https://live.shopee.co.th/1'')]\<rparr>)"
    by (rule NavigateWithRetry_first_try) (simp_all add: quiet_stream_def blank_def Second_def)
  have "0 < GetCheckInterval shop_config"
    by (simp add: GetCheckInterval_def shop_config_def wrap64_def Second_def)
  then show ?thesis
    by (simp add: monitorStream_def nav)
qed

text \<open>
  C7 as stated fails at one healthy stream cancelled between two ticks: Start reports
  the cancellation as a monitoring error instead of returning \<open>nil\<close>.
\<close>

theorem cancellation_is_reported_counterexample:
  "Start shop_config one_stream (\<lambda>i. 0) start_world =
     Returned (Some (Errorf ''monitoring error: %w'' [] (Some Canceled)))"
  using monitorStream_quiet_stream
  by (simp add: Start_def task_outcomes_def one_stream_def shop_config_def Let_def)

text \<open>C7 (amended) at one healthy stream, cancelled after its first tick.\<close>

theorem cancellation_is_reported_witness:
  "LivestreamURLs shop_config \<noteq> [] \<and>
   length (LivestreamURLs shop_config) = 1 \<and>
   fst (monitorStream shop_config (fst (one_stream 0)) (LivestreamURLs shop_config ! 0)
          (int 0 + 1) (snd (one_stream 0)) start_world) = Returned (Some Canceled) \<and>
   Start shop_config one_stream (\<lambda>i. 7) start_world =
     Returned (Some (Errorf ''monitoring error: %w'' [] (Some Canceled)))"
proof -
  have ne: "LivestreamURLs shop_config \<noteq> []"
    by (simp add: shop_config_def)
  have tasks: "\<forall>i<length (LivestreamURLs shop_config).
      fst (monitorStream shop_config (fst (one_stream i)) (LivestreamURLs shop_config ! i)
             (int i + 1) (snd (one_stream i)) start_world) = Returned (Some Canceled)"
    using monitorStream_quiet_stream
    by (simp add: one_stream_def shop_config_def)
  have one: "length (LivestreamURLs shop_config) = 1"
    by (simp add: shop_config_def)
  with tasks have first:
    "fst (monitorStream shop_config (fst (one_stream 0)) (LivestreamURLs shop_config ! 0)
          (int 0 + 1) (snd (one_stream 0)) start_world) = Returned (Some Canceled)"
    by simp
  show ?thesis
    using cancellation_is_reported [where cfg = shop_config and env = one_stream and w = start_world
          and finished = "\<lambda>i. 7"]
      ne tasks one first
    by blast
qed

end
